theory Spec2Isabelle
  imports Main
begin

section \<open>Strings\<close>

text \<open>
  A Python \<open>str\<close> is a sequence of Unicode code points, so the model is a list of
  natural numbers and not a list of 8-bit characters: the curly quotation marks that
  \<open>normalize_title\<close> deletes are the single code points 8220, 8221, 8216 and 8217.
  \<open>cps\<close> turns an ASCII literal into its code points.
\<close>

type_synonym pystr = "nat list"

definition cps :: "string \<Rightarrow> pystr" where
  "cps s = map of_char s"

text \<open>The code points for which \<open>str.isspace\<close> holds: \<open>str.split()\<close> and
  \<open>str.strip()\<close> without arguments cut at exactly these.\<close>

definition is_space :: "nat \<Rightarrow> bool" where
  "is_space c = (c \<in> set [9, 10, 11, 12, 13, 28, 29, 30, 31, 32, 133, 160, 5760,
       8192, 8193, 8194, 8195, 8196, 8197, 8198, 8199, 8200, 8201, 8202,
       8232, 8233, 8239, 8287, 12288])"

text \<open>\<open>s.split()\<close>: the maximal runs of non-whitespace, in order. The first argument
  is the word being read.\<close>

fun split_ws_acc :: "pystr \<Rightarrow> pystr \<Rightarrow> pystr list" where
  "split_ws_acc w [] = (if w = [] then [] else [w])"
| "split_ws_acc w (c # cs) =
     (if is_space c then (if w = [] then split_ws_acc [] cs else w # split_ws_acc [] cs)
      else split_ws_acc (w @ [c]) cs)"

definition split_ws :: "pystr \<Rightarrow> pystr list" where
  "split_ws s = split_ws_acc [] s"

text \<open>\<open>" ".join(ws)\<close>\<close>

fun join_sp :: "pystr list \<Rightarrow> pystr" where
  "join_sp [] = []"
| "join_sp [w] = w"
| "join_sp (w # v # ws) = w @ 32 # join_sp (v # ws)"

text \<open>\<open>s.strip()\<close>\<close>

definition strip :: "pystr \<Rightarrow> pystr" where
  "strip s = rev (dropWhile is_space (rev (dropWhile is_space s)))"

text \<open>\<open>sub in s\<close> for strings: \<open>sub\<close> occurs in \<open>s\<close> as a contiguous run.\<close>

fun contains :: "pystr \<Rightarrow> pystr \<Rightarrow> bool" where
  "contains sub [] = (sub = [])"
| "contains sub (c # cs) = (take (length sub) (c # cs) = sub \<or> contains sub cs)"

section \<open>Normalization\<close>

text \<open>
  \<open>string.punctuation\<close> is the 32 ASCII punctuation characters (code points 33 to 47,
  58 to 64, 91 to 96 and 123 to 126); the translation table of \<open>normalize_title\<close>
  deletes them and the four curly quotation marks.
\<close>

definition is_punct :: "nat \<Rightarrow> bool" where
  "is_punct c = ((33 \<le> c \<and> c \<le> 47) \<or> (58 \<le> c \<and> c \<le> 64) \<or> (91 \<le> c \<and> c \<le> 96)
      \<or> (123 \<le> c \<and> c \<le> 126) \<or> c \<in> set [8220, 8221, 8216, 8217])"

definition translate_del :: "pystr \<Rightarrow> pystr" where
  "translate_del s = filter (\<lambda>c. \<not> is_punct c) s"

text \<open>
  \<open>str.lower\<close> is Python's own: its Unicode case tables are not part of the repository,
  so the functions that call it take it as the parameter \<open>lower\<close>.
  \<^verbatim>\<open>
  def normalize_title(s: str) -> str:
      if not s: return ""
      table = str.maketrans("", "", string.punctuation + <curly quotes>)
      return " ".join(s.lower().translate(table).split())
  \<close>
\<close>

definition normalize_title :: "(pystr \<Rightarrow> pystr) \<Rightarrow> pystr \<Rightarrow> pystr" where
  "normalize_title lower s =
     (if s = [] then [] else join_sp (split_ws (translate_del (lower s))))"

text \<open>
  \<^verbatim>\<open>
  def normalize_author(s: str) -> str:
      if not s: return ""
      return " ".join(s.lower().split())
  \<close>
  The author may be \<open>None\<close>, which is falsy as the empty string is.
\<close>

definition normalize_author :: "(pystr \<Rightarrow> pystr) \<Rightarrow> pystr option \<Rightarrow> pystr" where
  "normalize_author lower a =
     (case a of None \<Rightarrow> [] | Some s \<Rightarrow> if s = [] then [] else join_sp (split_ws (lower s)))"

text \<open>The lower-casing of ASCII letters only: one function that has the properties
  of \<open>str.lower\<close> the proofs below rely on.\<close>

definition ascii_lower :: "pystr \<Rightarrow> pystr" where
  "ascii_lower s = map (\<lambda>c. if 65 \<le> c \<and> c \<le> 90 then c + 32 else c) s"

section \<open>JSON values and responses\<close>

text \<open>
  What \<open>json.loads\<close> and \<open>response.json()\<close> return. An object is an association list
  in the order of the document: Python dictionaries keep insertion order, and
  \<open>extract_created_key\<close> walks the success map in that order. \<open>JNull\<close> is \<open>None\<close>.
  Numbers are the integers; only their truth value is ever looked at.
\<close>

datatype json =
    JNull
  | JBool bool
  | JNum int
  | JStr pystr
  | JArr "json list"
  | JObj "(pystr \<times> json) list"

text \<open>Python's truth value of a decoded JSON value, as \<open>if x:\<close> and \<open>x or y\<close> read it.\<close>

fun truthy :: "json \<Rightarrow> bool" where
  "truthy JNull = False"
| "truthy (JBool b) = b"
| "truthy (JNum n) = (n \<noteq> 0)"
| "truthy (JStr s) = (s \<noteq> [])"
| "truthy (JArr xs) = (xs \<noteq> [])"
| "truthy (JObj kvs) = (kvs \<noteq> [])"

text \<open>
  A \<open>requests\<close> response, and the stand-in \<open>_FakeResp\<close> of the dry run. \<open>body\<close> is what
  \<open>.json()\<close> returns, \<open>None\<close> when it raises; \<open>headers\<close> is \<open>headers.get\<close>.
\<close>

record response =
  status_code :: int
  body :: "json option"
  headers :: "pystr \<Rightarrow> pystr option"
  resp_text :: pystr

section \<open>Key extraction from a creation response\<close>

text \<open>
  The loop over \<open>succ.items()\<close>:
  \<^verbatim>\<open>
  for _, v in succ.items():
      if isinstance(v, dict) and v.get("key"): return v["key"]
      if isinstance(v, str) and v: return v
  \<close>
  \<open>None\<close> when the loop ends without returning.
\<close>

fun successful_loop :: "json list \<Rightarrow> json option" where
  "successful_loop [] = None"
| "successful_loop (v # vs) =
     (case v of
        JObj d \<Rightarrow>
          (case map_of d (cps ''key'') of
             Some k \<Rightarrow> if truthy k then Some k else successful_loop vs
           | None \<Rightarrow> successful_loop vs)
      | JStr s \<Rightarrow> if s \<noteq> [] then Some (JStr s) else successful_loop vs
      | _ \<Rightarrow> successful_loop vs)"

text \<open>\<open>s.rsplit(sep, 1)[-1]\<close> for a non-empty \<open>sep\<close>: what follows the last occurrence
  of \<open>sep\<close> in \<open>s\<close>, and \<open>s\<close> itself when there is none.\<close>

fun find_last :: "pystr \<Rightarrow> pystr \<Rightarrow> pystr option" where
  "find_last sep [] = None"
| "find_last sep (c # cs) =
     (case find_last sep cs of
        Some r \<Rightarrow> Some r
      | None \<Rightarrow> if take (length sep) (c # cs) = sep then Some (drop (length sep) (c # cs)) else None)"

definition rsplit_last :: "pystr \<Rightarrow> pystr \<Rightarrow> pystr" where
  "rsplit_last sep s = (case find_last sep s of Some r \<Rightarrow> r | None \<Rightarrow> s)"

text \<open>\<open>a or b\<close> on two header look-ups: the first when it is a non-empty string.\<close>

definition header_or :: "pystr option \<Rightarrow> pystr option \<Rightarrow> pystr option" where
  "header_or a b = (case a of Some x \<Rightarrow> if x \<noteq> [] then Some x else b | None \<Rightarrow> b)"

text \<open>
  \<^verbatim>\<open>
  def extract_created_key(response):
      try: data = response.json()
      except Exception: data = None
      if isinstance(data, dict):
          succ = data.get("successful")
          if isinstance(succ, dict):
              for _, v in succ.items(): ...
      if isinstance(data, list) and data:
          first = data[0]
          if isinstance(first, dict):
              if first.get("key"): return first["key"]
              d = first.get("data")
              if isinstance(d, dict) and d.get("key"): return d["key"]
      loc = response.headers.get("Location") or response.headers.get("location")
      if loc and "/items/" in loc: return loc.rsplit("/items/", 1)[-1].strip()
      return None
  \<close>
  The three blocks run in this order, each falling through to the next when it does not
  return. \<open>from_location\<close>, \<open>from_list\<close> and \<open>extract_created_key\<close> are the function
  read from its last block to its first.
\<close>

definition from_location :: "response \<Rightarrow> json option" where
  "from_location response =
     (case header_or (headers response (cps ''Location'')) (headers response (cps ''location'')) of
        Some loc \<Rightarrow>
          if loc \<noteq> [] \<and> contains (cps ''/items/'') loc
          then Some (JStr (strip (rsplit_last (cps ''/items/'') loc)))
          else None
      | None \<Rightarrow> None)"

definition from_list :: "json \<Rightarrow> response \<Rightarrow> json option" where
  "from_list data response =
     (case data of
        JArr (first # rest) \<Rightarrow>
          (case first of
             JObj f \<Rightarrow>
               (if (case map_of f (cps ''key'') of Some k \<Rightarrow> truthy k | None \<Rightarrow> False)
                then map_of f (cps ''key'')
                else (case map_of f (cps ''data'') of
                        Some (JObj d) \<Rightarrow>
                          (if (case map_of d (cps ''key'') of Some k \<Rightarrow> truthy k | None \<Rightarrow> False)
                           then map_of d (cps ''key'')
                           else from_location response)
                      | _ \<Rightarrow> from_location response))
           | _ \<Rightarrow> from_location response)
      | _ \<Rightarrow> from_location response)"

definition extract_created_key :: "response \<Rightarrow> json option" where
  "extract_created_key response =
     (let data = (case body response of Some d \<Rightarrow> d | None \<Rightarrow> JNull) in
      case data of
        JObj obj \<Rightarrow>
          (case map_of obj (cps ''successful'') of
             Some (JObj succ) \<Rightarrow>
               (case successful_loop (map snd succ) of
                  Some k \<Rightarrow> Some k
                | None \<Rightarrow> from_list data response)
           | _ \<Rightarrow> from_list data response)
      | _ \<Rightarrow> from_list data response)"

text \<open>
  The three strategies as the specification words them, written without the functions
  above: (a) the success map, (b) the first element of a list, (c) the location header
  and its trailing path segment.
\<close>

definition truthy_field :: "(pystr \<times> json) list \<Rightarrow> pystr \<Rightarrow> json option" where
  "truthy_field d k = (case map_of d k of Some v \<Rightarrow> if truthy v then Some v else None | None \<Rightarrow> None)"

text \<open>What one entry of the success map offers: the truthy \<open>key\<close> of an object, or the
  entry itself when it is a non-empty string.\<close>

definition usable_entry :: "json \<Rightarrow> json option" where
  "usable_entry v =
     (case v of
        JObj d \<Rightarrow> truthy_field d (cps ''key'')
      | JStr s \<Rightarrow> if s = [] then None else Some (JStr s)
      | _ \<Rightarrow> None)"

definition strategy_success_map :: "json option \<Rightarrow> json option" where
  "strategy_success_map data =
     (case data of
        Some (JObj obj) \<Rightarrow>
          (case map_of obj (cps ''successful'') of
             Some (JObj succ) \<Rightarrow>
               (case List.map_filter usable_entry (map snd succ) of
                  [] \<Rightarrow> None
                | k # ks \<Rightarrow> Some k)
           | _ \<Rightarrow> None)
      | _ \<Rightarrow> None)"

definition strategy_first_element :: "json option \<Rightarrow> json option" where
  "strategy_first_element data =
     (case data of
        Some (JArr (JObj f # rest)) \<Rightarrow>
          (case truthy_field f (cps ''key'') of
             Some k \<Rightarrow> Some k
           | None \<Rightarrow>
               (case map_of f (cps ''data'') of
                  Some (JObj d) \<Rightarrow> truthy_field d (cps ''key'')
                | _ \<Rightarrow> None))
      | _ \<Rightarrow> None)"

text \<open>The location header: \<open>Location\<close>, and \<open>location\<close> when that is absent or empty.\<close>

definition location_header :: "(pystr \<Rightarrow> pystr option) \<Rightarrow> pystr option" where
  "location_header hdrs =
     (case hdrs (cps ''Location'') of
        Some l \<Rightarrow> if l = [] then hdrs (cps ''location'') else Some l
      | None \<Rightarrow> hdrs (cps ''location''))"

text \<open>The trailing path segment of a location: what follows its last \<open>/\<close> (code point 47).\<close>

definition trailing_segment :: "pystr \<Rightarrow> pystr" where
  "trailing_segment loc = rev (takeWhile (\<lambda>c. c \<noteq> 47) (rev loc))"

text \<open>\<open>sub\<close> occurs in \<open>s\<close>.\<close>

definition occurs :: "pystr \<Rightarrow> pystr \<Rightarrow> bool" where
  "occurs sub s = (\<exists>p t. s = p @ sub @ t)"

section \<open>Fingerprints\<close>

text \<open>A highlight as \<open>parse_kindle_md\<close> builds it:
  \<open>{"text": text, "location": loc, "note": note}\<close>, the last two \<open>None\<close> when absent.\<close>

record highlight =
  h_text :: pystr
  h_note :: "pystr option"
  h_location :: "pystr option"

text \<open>\<open>x or ""\<close>\<close>

definition or_empty :: "pystr option \<Rightarrow> pystr" where
  "or_empty x = (case x of Some s \<Rightarrow> s | None \<Rightarrow> [])"

text \<open>
  \<^verbatim>\<open>
  def highlight_hash(h: dict) -> str:
      m = hashlib.md5()
      m.update((h.get("text","") + "|" + (h.get("note") or "") + "|"
                + (h.get("location") or "")).encode("utf-8"))
      return m.hexdigest()
  \<close>
  \<open>hash_text\<close> is the string that is encoded and digested. The digest is \<open>hashlib\<close>'s:
  the parameter \<open>md5\<close> stands for the hexadecimal MD5 digest of the UTF-8 encoding of a
  string. (The encoding raises on lone surrogates only, which a string read from a
  UTF-8 file never holds.)
\<close>

definition hash_text :: "highlight \<Rightarrow> pystr" where
  "hash_text h = h_text h @ cps ''|'' @ or_empty (h_note h) @ cps ''|'' @ or_empty (h_location h)"

definition highlight_hash :: "(pystr \<Rightarrow> pystr) \<Rightarrow> highlight \<Rightarrow> pystr" where
  "highlight_hash md5 h = md5 (hash_text h)"

text \<open>The triple of a highlight that the fingerprint is meant to identify.\<close>

definition triple :: "highlight \<Rightarrow> pystr \<times> pystr \<times> pystr" where
  "triple h = (h_text h, or_empty (h_note h), or_empty (h_location h))"

definition sep_free :: "highlight \<Rightarrow> bool" where
  "sep_free h = (124 \<notin> set (h_text h) \<and> 124 \<notin> set (or_empty (h_note h)))"

section \<open>Exceptions and dictionary operations\<close>

text \<open>
  The exceptions the program can raise and does not always catch. A computation that can
  raise returns \<open>Inl\<close> of the exception or \<open>Inr\<close> of its value.
\<close>

datatype exn =
    AttributeError
  | TypeError
  | KeyError
  | ValueError
  | OSError
  | RequestException
  | SystemExit

type_synonym dict = "(pystr \<times> json) list"

definition ebind :: "exn + 'a \<Rightarrow> ('a \<Rightarrow> exn + 'b) \<Rightarrow> exn + 'b" where
  "ebind m f = (case m of Inl e \<Rightarrow> Inl e | Inr x \<Rightarrow> f x)"

text \<open>\<open>d[k] = v\<close> on a dictionary: an existing key keeps its place, a new one goes last.\<close>

fun dict_set :: "pystr \<Rightarrow> json \<Rightarrow> dict \<Rightarrow> dict" where
  "dict_set k v [] = [(k, v)]"
| "dict_set k v (p # ps) = (if fst p = k then (k, v) # ps else p # dict_set k v ps)"

text \<open>\<open>d.setdefault(k, v)\<close>, for its effect on \<open>d\<close>.\<close>

definition setdefault :: "pystr \<Rightarrow> json \<Rightarrow> dict \<Rightarrow> dict" where
  "setdefault k v d = (case map_of d k of Some x \<Rightarrow> d | None \<Rightarrow> d @ [(k, v)])"

text \<open>\<open>{**a, **b}\<close> for two dictionaries: the items of \<open>a\<close>, then those of \<open>b\<close> written
  over them in order.\<close>

definition dict_unpack :: "dict \<Rightarrow> dict \<Rightarrow> dict" where
  "dict_unpack a b = foldl (\<lambda>acc kv. dict_set (fst kv) (snd kv) acc) a b"

text \<open>\<open>x.get(k, default)\<close>: only a dictionary has the method.\<close>

definition py_get :: "json \<Rightarrow> pystr \<Rightarrow> json \<Rightarrow> exn + json" where
  "py_get x k dflt =
     (case x of
        JObj d \<Rightarrow> Inr (case map_of d k of Some v \<Rightarrow> v | None \<Rightarrow> dflt)
      | _ \<Rightarrow> Inl AttributeError)"

text \<open>\<open>for x in v\<close>, \<open>set(v)\<close>, \<open>[... for x in v]\<close>: the elements of a list, the keys of a
  dictionary, the characters of a string; nothing else that JSON decodes to is iterable.\<close>

definition py_iter :: "json \<Rightarrow> exn + json list" where
  "py_iter v =
     (case v of
        JArr xs \<Rightarrow> Inr xs
      | JObj d \<Rightarrow> Inr (map (\<lambda>kv. JStr (fst kv)) d)
      | JStr s \<Rightarrow> Inr (map (\<lambda>c. JStr [c]) s)
      | _ \<Rightarrow> Inl TypeError)"

text \<open>Lists and dictionaries are unhashable: \<open>set(v)\<close> raises on an element that is one.\<close>

fun hashable :: "json \<Rightarrow> bool" where
  "hashable (JArr xs) = False"
| "hashable (JObj d) = False"
| "hashable v = True"

definition py_set :: "json \<Rightarrow> exn + json list" where
  "py_set v = ebind (py_iter v) (\<lambda>xs. if list_all hashable xs then Inr xs else Inl TypeError)"

section \<open>The sent-log on disk\<close>

text \<open>
  What the program finds when it reads one of the two sent-log files: \<open>Missing\<close> when
  \<open>exists()\<close> is false, \<open>Unreadable\<close> when \<open>exists()\<close>, \<open>read_text\<close> or \<open>json.loads\<close> raises,
  \<open>Parsed v\<close> when \<open>json.loads\<close> returns \<open>v\<close>.
\<close>

datatype file_read = Missing | Unreadable | Parsed json

text \<open>
  \<^verbatim>\<open>
  def load_sent_log(vault_path: str) -> dict:
      data = {}
      try:
          p = sent_log_path(vault_path)
          if p.exists():
              data = json.loads(p.read_text(encoding="utf-8"))
      except Exception:
          data = {}
      try:
          if LOCAL_SENT_LOG.exists():
              fallback = json.loads(LOCAL_SENT_LOG.read_text(encoding="utf-8"))
              data = {**fallback, **data}
      except Exception:
          pass
      data.setdefault("_items", {})
      data.setdefault("_done_titles", [])
      return data
  \<close>
  \<open>{**fallback, **data}\<close> raises \<open>TypeError\<close> unless both are dictionaries; that is
  inside the second \<open>try\<close>, and then \<open>data\<close> stays as it is. \<open>data.setdefault\<close> is
  outside both: it raises \<open>AttributeError\<close> when \<open>data\<close> is not a dictionary.
\<close>

definition load_primary :: "file_read \<Rightarrow> json" where
  "load_primary primary = (case primary of Parsed v \<Rightarrow> v | _ \<Rightarrow> JObj [])"

definition load_fallback :: "file_read \<Rightarrow> json \<Rightarrow> json" where
  "load_fallback fallback data =
     (case fallback of
        Parsed (JObj fb) \<Rightarrow> (case data of JObj d \<Rightarrow> JObj (dict_unpack fb d) | _ \<Rightarrow> data)
      | _ \<Rightarrow> data)"

definition load_sent_log :: "file_read \<Rightarrow> file_read \<Rightarrow> exn + dict" where
  "load_sent_log primary fallback =
     (case load_fallback fallback (load_primary primary) of
        JObj d \<Rightarrow>
          Inr (setdefault (cps ''_done_titles'') (JArr []) (setdefault (cps ''_items'') (JObj []) d))
      | _ \<Rightarrow> Inl AttributeError)"

section \<open>Requests, events and the environment\<close>

text \<open>
  The calls the program makes on the Zotero API, by endpoint and by what they carry:
  \<^item> \<open>GetCollections name\<close>: \<open>requests.get(API_BASE/collections, params q=name, limit=100)\<close>;
  \<^item> \<open>PostCollections payload\<close>: \<open>safe_post(API_BASE/collections, json=payload)\<close>;
  \<^item> \<open>GetItem key\<close>: \<open>requests.get(API_BASE/items/key)\<close>;
  \<^item> \<open>PutItem key version data\<close>: \<open>safe_put(API_BASE/items/key, json=data)\<close>, with the header
    \<open>If-Unmodified-Since-Version\<close> when \<open>version\<close> is given;
  \<^item> \<open>SearchItems title\<close>: \<open>requests.get(API_BASE/items, params q=title, qmode=title,
    itemType=book, limit=25)\<close>;
  \<^item> \<open>RecentItems since\<close>: \<open>requests.get(API_BASE/items, params limit=25, sort=dateModified,
    direction=desc)\<close>, with \<open>since\<close> when it is given;
  \<^item> \<open>PostItems payload\<close>: \<open>safe_post(API_BASE/items, json=payload)\<close>.
\<close>

datatype request =
    GetCollections pystr
  | PostCollections json
  | GetItem json
  | PutItem json "pystr option" json
  | SearchItems pystr
  | RecentItems "int option"
  | PostItems json

text \<open>The POST and PUT calls.\<close>

fun is_write :: "request \<Rightarrow> bool" where
  "is_write (PostCollections p) = True"
| "is_write (PutItem k v d) = True"
| "is_write (PostItems p) = True"
| "is_write r = False"

text \<open>The file operations of \<open>save_sent_log\<close>: the write and removal of the test file
  \<open>.pyto_write_test.tmp\<close>, and the write of the sent-log to the vault or to the local
  file \<open>.sent_highlights_local.json\<close>.\<close>

datatype fs_op =
    WriteTest
  | UnlinkTest
  | WritePrimary dict
  | WriteFallback dict

text \<open>What the program prints, one constructor for each \<open>print\<close>.\<close>

datatype message =
    BlockedPost request
  | BlockedPut request
  | DebugAlert
  | LiveCanceled
  | VaultPath
  | VaultExists
  | SavedLocally
  | WouldCreateCollection pystr
  | FailedCollection pystr int
  | CouldNotFetchItem json int
  | WouldAddToCollection json json
  | FailedAddToCollection int
  | DebugCreated int
  | WouldCreateBook pystr
  | FailedCreateBook int
  | CreatedNoKey
  | WouldAddNote pystr
  | FailedAddNote int
  | ConfigDryRun bool
  | FoundFiles nat
  | NoMarkdown
  | CollectionWillBeCreated
  | SkippingCompleted pystr
  | Processing pystr "pystr option" nat
  | SkippingNotes bool
  | SkippingDuplicate pystr
  | NewNotesCreated int
  | ReachedBatchLimit
  | Done int int

text \<open>
  What a run does, in order: a network call (recorded when it is issued, whether it
  returns or raises), a \<open>time.sleep\<close> with its seconds, a file operation with its
  outcome (\<open>False\<close> when it raises), a \<open>print\<close>.
\<close>

datatype event =
    Net request
  | Sleep nat
  | Fs fs_op bool
  | Print message

text \<open>
  What the program does not define and takes from outside:
  \<^item> \<open>str_lower\<close>, \<open>md5_hex\<close> and \<open>to_int\<close>: Python's \<open>str.lower\<close>, the hexadecimal MD5 digest of the
    UTF-8 encoding of a string, and \<open>int\<close> on a string (\<open>None\<close> when it raises);
  \<^item> \<open>net\<close>: the answer of the network to a call, given all that happened before;
    \<open>None\<close> when \<open>requests\<close> raises (no connection, timeout);
  \<^item> \<open>fs\<close>: whether a file operation succeeds, given all that happened before;
  \<^item> \<open>confirmed\<close>: whether the confirmation dialog of a live run was shown and answered
    with SEND NOW;
  \<^item> \<open>primary_file\<close> and \<open>fallback_file\<close>: the two sent-log files as \<open>load_sent_log\<close>
    finds them.
\<close>

record env =
  str_lower :: "pystr \<Rightarrow> pystr"
  md5_hex :: "pystr \<Rightarrow> pystr"
  to_int :: "pystr \<Rightarrow> int option"
  net :: "event list \<Rightarrow> request \<Rightarrow> response option"
  fs :: "event list \<Rightarrow> fs_op \<Rightarrow> bool"
  confirmed :: bool
  primary_file :: file_read
  fallback_file :: file_read

text \<open>The module's settings.\<close>

record config =
  DRY_RUN :: bool
  RESUME_ENABLED :: bool
  ONLY_TITLES :: "pystr list"
  BATCH_LIMIT :: int
  COLLECTION_NAME :: pystr

text \<open>
  The state of a run: what has happened so far, and the variables of the main block
  that its loop changes. \<open>sent_log\<close> is the dictionary that the functions below know as
  \<open>cache\<close> and \<open>log\<close>: one object, passed by reference. \<open>done_set\<close> is a set, kept as
  the list of its elements.
\<close>

record state =
  trace :: "event list"
  sent_log :: dict
  done_set :: "json list"
  processed :: int
  matched :: int

section \<open>Programs\<close>

text \<open>A statement or function of the program: from a state to the value it returns or
  the exception it raises, and the state it leaves.\<close>

type_synonym 'a prog = "state \<Rightarrow> (exn + 'a) \<times> state"

definition ret :: "'a \<Rightarrow> 'a prog" where
  "ret x = (\<lambda>s. (Inr x, s))"

definition throw :: "exn \<Rightarrow> 'a prog" where
  "throw e = (\<lambda>s. (Inl e, s))"

definition bnd :: "'a prog \<Rightarrow> ('a \<Rightarrow> 'b prog) \<Rightarrow> 'b prog" where
  "bnd m f = (\<lambda>s. case m s of (Inl e, s') \<Rightarrow> (Inl e, s') | (Inr x, s') \<Rightarrow> f x s')"

definition lift :: "exn + 'a \<Rightarrow> 'a prog" where
  "lift r = (\<lambda>s. (r, s))"

definition emit :: "event \<Rightarrow> unit prog" where
  "emit e = (\<lambda>s. (Inr (), s\<lparr>trace := trace s @ [e]\<rparr>))"

definition get_sent_log :: "dict prog" where
  "get_sent_log = (\<lambda>s. (Inr (sent_log s), s))"

definition put_sent_log :: "dict \<Rightarrow> unit prog" where
  "put_sent_log d = (\<lambda>s. (Inr (), s\<lparr>sent_log := d\<rparr>))"

text \<open>A call of \<open>requests.get\<close>, \<open>SESSION.post\<close> or \<open>SESSION.put\<close>.\<close>

definition http :: "env \<Rightarrow> request \<Rightarrow> response prog" where
  "http E req = (\<lambda>s.
     (case net E (trace s) req of None \<Rightarrow> Inl RequestException | Some r \<Rightarrow> Inr r,
      s\<lparr>trace := trace s @ [Net req]\<rparr>))"

text \<open>A file operation: its outcome is returned, and recorded.\<close>

definition file_op :: "env \<Rightarrow> fs_op \<Rightarrow> bool prog" where
  "file_op E op = (\<lambda>s. (Inr (fs E (trace s) op), s\<lparr>trace := trace s @ [Fs op (fs E (trace s) op)]\<rparr>))"

text \<open>\<open>r.json()\<close> where the program does not catch what it raises.\<close>

definition json_of :: "response \<Rightarrow> exn + json" where
  "json_of r = (case body r of Some v \<Rightarrow> Inr v | None \<Rightarrow> Inl ValueError)"

section \<open>The dry-run gate\<close>

text \<open>
  \<^verbatim>\<open>
  class _FakeResp:
      status_code = 200
      text = "[DRY RUN] blocked network call"
      headers = {}
      def json(self): return {}

  def safe_post(url, **kwargs):
      if DRY_RUN:
          print("[DRY RUN] BLOCKED POST", url)
          return _FakeResp()
      return SESSION.post(url, **kwargs)
  \<close>
  and \<open>safe_put\<close> alike. Both read the module's \<open>DRY_RUN\<close>, not the \<open>dry_run\<close> argument
  that the functions below are given.
\<close>

definition FakeResp :: response where
  "FakeResp = \<lparr>status_code = 200, body = Some (JObj []), headers = (\<lambda>k. None),
     resp_text = cps ''[DRY RUN] blocked network call''\<rparr>"

definition safe_post :: "config \<Rightarrow> env \<Rightarrow> request \<Rightarrow> response prog" where
  "safe_post C E req =
     (if DRY_RUN C then bnd (emit (Print (BlockedPost req))) (\<lambda>u. ret FakeResp)
      else http E req)"

definition safe_put :: "config \<Rightarrow> env \<Rightarrow> request \<Rightarrow> response prog" where
  "safe_put C E req =
     (if DRY_RUN C then bnd (emit (Print (BlockedPut req))) (\<lambda>u. ret FakeResp)
      else http E req)"

section \<open>Saving the sent-log\<close>

text \<open>
  \<^verbatim>\<open>
  def save_sent_log(vault_path: str, log: dict) -> None:
      vp = Path(vault_path)
      try:
          test = vp / ".pyto_write_test.tmp"
          test.write_text("ok", encoding="utf-8"); test.unlink(missing_ok=True)
          sent_log_path(vault_path).write_text(json.dumps(log, indent=2), encoding="utf-8"); return
      except Exception:
          pass
      LOCAL_SENT_LOG.write_text(json.dumps(log, indent=2), encoding="utf-8")
      print(f"No write permission in vault; saved sent-log to {LOCAL_SENT_LOG.name} instead.")
  \<close>
  The three operations on the vault are inside the \<open>try\<close>: the first that fails leads
  to the local write. The local write is outside it: when it fails, \<open>OSError\<close> leaves
  the function.
\<close>

definition save_local :: "env \<Rightarrow> dict \<Rightarrow> unit prog" where
  "save_local E log =
     bnd (file_op E (WriteFallback log)) (\<lambda>ok.
       if ok then emit (Print SavedLocally) else throw OSError)"

definition save_sent_log :: "env \<Rightarrow> dict \<Rightarrow> unit prog" where
  "save_sent_log E log =
     bnd (file_op E WriteTest) (\<lambda>ok1.
       if \<not> ok1 then save_local E log
       else bnd (file_op E UnlinkTest) (\<lambda>ok2.
         if \<not> ok2 then save_local E log
         else bnd (file_op E (WritePrimary log)) (\<lambda>ok3.
           if \<not> ok3 then save_local E log else ret ())))"

section \<open>Title filter\<close>

text \<open>
  \<^verbatim>\<open>
  def title_matches_filters(title: str) -> bool:
      if not ONLY_TITLES: return True
      t = title.lower()
      return any(substr.lower() in t for substr in ONLY_TITLES)
  \<close>
\<close>

definition title_matches_filters :: "config \<Rightarrow> env \<Rightarrow> pystr \<Rightarrow> bool" where
  "title_matches_filters C E title =
     (if ONLY_TITLES C = [] then True
      else list_ex (\<lambda>substr. contains (str_lower E substr) (str_lower E title)) (ONLY_TITLES C))"

section \<open>Collections\<close>

text \<open>
  The search for the collection, which \<open>get_or_create_collection\<close> runs before and after
  creating it:
  \<^verbatim>\<open>
  r = requests.get(f"{API_BASE}/collections", headers=HEADERS, params={"q": name, "limit": 100}, timeout=20)
  if r.status_code == 200:
      for coll in r.json():
          if coll.get("data", {}).get("name") == name:
              return coll.get("key")
  \<close>
  \<open>Some key\<close> when the loop returns, \<open>None\<close> when the search falls through.
\<close>

fun collection_loop :: "pystr \<Rightarrow> json list \<Rightarrow> exn + json option" where
  "collection_loop name [] = Inr None"
| "collection_loop name (coll # rest) =
     ebind (py_get coll (cps ''data'') (JObj [])) (\<lambda>d.
     ebind (py_get d (cps ''name'') JNull) (\<lambda>n.
       if n = JStr name then ebind (py_get coll (cps ''key'') JNull) (\<lambda>k. Inr (Some k))
       else collection_loop name rest))"

definition collection_search :: "env \<Rightarrow> pystr \<Rightarrow> json option prog" where
  "collection_search E name =
     bnd (http E (GetCollections name)) (\<lambda>r.
       if status_code r = 200
       then lift (ebind (json_of r) (\<lambda>j. ebind (py_iter j) (collection_loop name)))
       else ret None)"

text \<open>
  \<^verbatim>\<open>
  def get_or_create_collection(name: str, dry_run: bool) -> Optional[str]:
      <search>
      if dry_run:
          print(f"[DRY RUN] Would create collection: {name}"); return None
      payload = [{"name": name, "parentCollection": False}]
      r = safe_post(f"{API_BASE}/collections", headers=HEADERS_JSON, json=payload, timeout=20)
      if r.status_code in (200, 201):
          <search>
      print("Failed to create/find collection:", name, r.status_code, getattr(r, "text", "")); return None
  \<close>
\<close>

definition get_or_create_collection :: "config \<Rightarrow> env \<Rightarrow> pystr \<Rightarrow> bool \<Rightarrow> json prog" where
  "get_or_create_collection C E name dry_run =
     bnd (collection_search E name) (\<lambda>found.
       case found of
         Some key \<Rightarrow> ret key
       | None \<Rightarrow>
           if dry_run then bnd (emit (Print (WouldCreateCollection name))) (\<lambda>u. ret JNull)
           else
             bnd (safe_post C E (PostCollections
                   (JArr [JObj [(cps ''name'', JStr name), (cps ''parentCollection'', JBool False)]])))
               (\<lambda>r.
                 bnd (if status_code r = 200 \<or> status_code r = 201 then collection_search E name
                      else ret None)
                   (\<lambda>found2.
                     case found2 of
                       Some key \<Rightarrow> ret key
                     | None \<Rightarrow>
                         bnd (emit (Print (FailedCollection name (status_code r)))) (\<lambda>u. ret JNull))))"

text \<open>\<open>x in v\<close>: membership in a list, among the keys of a dictionary (which hashes \<open>x\<close>),
  as a substring of a string; \<open>TypeError\<close> otherwise.\<close>

definition py_in :: "json \<Rightarrow> json \<Rightarrow> exn + bool" where
  "py_in x v =
     (case v of
        JArr xs \<Rightarrow> Inr (x \<in> set xs)
      | JObj d \<Rightarrow>
          if hashable x then Inr (case x of JStr k \<Rightarrow> k \<in> set (map fst d) | _ \<Rightarrow> False)
          else Inl TypeError
      | JStr s \<Rightarrow> (case x of JStr t \<Rightarrow> Inr (contains t s) | _ \<Rightarrow> Inl TypeError)
      | _ \<Rightarrow> Inl TypeError)"

text \<open>\<open>v.append(x)\<close>: only a list has the method.\<close>

definition py_append :: "json \<Rightarrow> json \<Rightarrow> exn + json" where
  "py_append v x = (case v of JArr xs \<Rightarrow> Inr (JArr (xs @ [x])) | _ \<Rightarrow> Inl AttributeError)"

text \<open>
  \<^verbatim>\<open>
  def ensure_item_in_collection(item_key: str, collection_key: str, dry_run: bool):
      r = requests.get(f"{API_BASE}/items/{item_key}", headers=HEADERS, timeout=20)
      if r.status_code != 200:
          print("Could not fetch item to set collection:", item_key, r.status_code); return
      data = r.json().get("data", {})
      version = r.headers.get("Last-Modified-Version")
      cols = data.get("collections", []) or []
      if collection_key in cols: return
      cols.append(collection_key); data["collections"] = cols
      if dry_run:
          print(f"[DRY RUN] Would add item {item_key} to collection {collection_key}"); return
      headers = dict(HEADERS_JSON)
      if version: headers["If-Unmodified-Since-Version"] = version
      r2 = safe_put(f"{API_BASE}/items/{item_key}", headers=headers, json=data, timeout=20)
      if r2.status_code not in (200, 201, 204):
          print("Failed to add item to collection:", r2.status_code, r2.text)
  \<close>
\<close>

definition ensure_item_in_collection :: "config \<Rightarrow> env \<Rightarrow> json \<Rightarrow> json \<Rightarrow> bool \<Rightarrow> unit prog" where
  "ensure_item_in_collection C E item_key collection_key dry_run =
     bnd (http E (GetItem item_key)) (\<lambda>r.
       if status_code r \<noteq> 200 then emit (Print (CouldNotFetchItem item_key (status_code r)))
       else
         bnd (lift (ebind (json_of r) (\<lambda>j. py_get j (cps ''data'') (JObj [])))) (\<lambda>data.
         bnd (lift (py_get data (cps ''collections'') (JArr []))) (\<lambda>c0.
         bnd (lift (py_in collection_key (if truthy c0 then c0 else JArr []))) (\<lambda>member.
           if member then ret ()
           else
             bnd (lift (py_append (if truthy c0 then c0 else JArr []) collection_key)) (\<lambda>cols.
               case data of
                 JObj d \<Rightarrow>
                   if dry_run then emit (Print (WouldAddToCollection item_key collection_key))
                   else
                     bnd (safe_put C E (PutItem item_key
                            (header_or (headers r (cps ''Last-Modified-Version'')) None)
                            (JObj (dict_set (cps ''collections'') cols d))))
                       (\<lambda>r2.
                         if status_code r2 \<noteq> 200 \<and> status_code r2 \<noteq> 201 \<and> status_code r2 \<noteq> 204
                         then emit (Print (FailedAddToCollection (status_code r2)))
                         else ret ())
               | _ \<Rightarrow> throw TypeError)))))"

section \<open>Finding the parent item\<close>

text \<open>\<open>normalize_title(data.get("title", ""))\<close> on a decoded value: a falsy one gives the
  empty string, a string is normalized, anything else has no \<open>lower\<close>.\<close>

definition normalize_title_of :: "(pystr \<Rightarrow> pystr) \<Rightarrow> json \<Rightarrow> exn + pystr" where
  "normalize_title_of low v =
     (if \<not> truthy v then Inr []
      else case v of JStr s \<Rightarrow> Inr (normalize_title low s) | _ \<Rightarrow> Inl AttributeError)"

text \<open>\<open>[c.get("lastName","") for c in creators if c.get("creatorType")=="author"]\<close>\<close>

fun creator_names :: "json list \<Rightarrow> exn + json list" where
  "creator_names [] = Inr []"
| "creator_names (c # cs) =
     ebind (py_get c (cps ''creatorType'') JNull) (\<lambda>t.
       if t = JStr (cps ''author'')
       then ebind (py_get c (cps ''lastName'') (JStr [])) (\<lambda>n.
              ebind (creator_names cs) (\<lambda>ns. Inr (n # ns)))
       else creator_names cs)"

text \<open>\<open>" ".join(names)\<close>: every item has to be a string.\<close>

fun strings_of :: "json list \<Rightarrow> pystr list option" where
  "strings_of [] = Some []"
| "strings_of (JStr s # vs) = (case strings_of vs of Some ss \<Rightarrow> Some (s # ss) | None \<Rightarrow> None)"
| "strings_of (v # vs) = None"

definition join_names :: "json list \<Rightarrow> exn + pystr" where
  "join_names ns = (case strings_of ns of Some ss \<Rightarrow> Inr (join_sp ss) | None \<Rightarrow> Inl TypeError)"

text \<open>
  The body of the loop that \<open>search_item_by_title\<close> and \<open>fetch_recent_and_match\<close> both
  run over the items of a listing:
  \<^verbatim>\<open>
  for it in r.json():
      data = it.get("data", it); key = data.get("key")
      got_title = normalize_title(data.get("title", ""))
      if got_title != want_title: continue
      if want_author:
          creators = data.get("creators", [])
          names = " ".join([c.get("lastName","") for c in creators if c.get("creatorType")=="author"])
          if want_author not in normalize_author(names): continue
      cache["_items"][want_title] = key; return key
  return None
  \<close>
  \<open>match_item\<close> is \<open>Some key\<close> for an item that matches and \<open>None\<close> for one that the loop
  passes over; \<open>match_loop\<close> is the first match of a listing.
\<close>

definition match_item :: "(pystr \<Rightarrow> pystr) \<Rightarrow> pystr \<Rightarrow> pystr \<Rightarrow> json \<Rightarrow> exn + json option" where
  "match_item low want_title want_author it =
     ebind (py_get it (cps ''data'') it) (\<lambda>data.
     ebind (py_get data (cps ''key'') JNull) (\<lambda>key.
     ebind (py_get data (cps ''title'') (JStr [])) (\<lambda>t.
     ebind (normalize_title_of low t) (\<lambda>got_title.
       if got_title \<noteq> want_title then Inr None
       else if want_author \<noteq> [] then
         ebind (py_get data (cps ''creators'') (JArr [])) (\<lambda>creators.
         ebind (py_iter creators) (\<lambda>cs.
         ebind (creator_names cs) (\<lambda>ns.
         ebind (join_names ns) (\<lambda>names.
           if \<not> contains want_author (normalize_author low (Some names)) then Inr None
           else Inr (Some key)))))
       else Inr (Some key)))))"

fun match_loop :: "(pystr \<Rightarrow> pystr) \<Rightarrow> pystr \<Rightarrow> pystr \<Rightarrow> json list \<Rightarrow> exn + json option" where
  "match_loop low want_title want_author [] = Inr None"
| "match_loop low want_title want_author (it # its) =
     ebind (match_item low want_title want_author it) (\<lambda>m.
       case m of
         Some key \<Rightarrow> Inr (Some key)
       | None \<Rightarrow> match_loop low want_title want_author its)"

text \<open>\<open>cache["_items"][want_title] = key\<close>\<close>

definition cache_store :: "pystr \<Rightarrow> json \<Rightarrow> unit prog" where
  "cache_store want_title key = (\<lambda>s.
     case map_of (sent_log s) (cps ''_items'') of
       None \<Rightarrow> (Inl KeyError, s)
     | Some (JObj d) \<Rightarrow>
         (Inr (), s\<lparr>sent_log := dict_set (cps ''_items'') (JObj (dict_set want_title key d)) (sent_log s)\<rparr>)
     | Some v \<Rightarrow> (Inl TypeError, s))"

definition match_and_cache :: "env \<Rightarrow> pystr \<Rightarrow> pystr option \<Rightarrow> response \<Rightarrow> json prog" where
  "match_and_cache E title author r =
     bnd (lift (ebind (json_of r) (\<lambda>j. ebind (py_iter j)
            (match_loop (str_lower E) (normalize_title (str_lower E) title)
               (normalize_author (str_lower E) author)))))
       (\<lambda>m. case m of
          Some key \<Rightarrow> bnd (cache_store (normalize_title (str_lower E) title) key) (\<lambda>u. ret key)
        | None \<Rightarrow> ret JNull)"

text \<open>
  \<^verbatim>\<open>
  def search_item_by_title(title: str, author: Optional[str], cache: dict) -> Optional[str]:
      norm_t = normalize_title(title)
      cached = cache.get("_items", {}).get(norm_t)
      if cached: return cached
      r = requests.get(f"{API_BASE}/items", headers=HEADERS,
                       params={"q": title, "qmode": "title", "itemType": "book", "limit": 25}, timeout=20)
      if r.status_code != 200: return None
      want_title = norm_t; want_author = normalize_author(author)
      <loop>
  \<close>
\<close>

definition search_item_by_title :: "env \<Rightarrow> pystr \<Rightarrow> pystr option \<Rightarrow> json prog" where
  "search_item_by_title E title author =
     bnd get_sent_log (\<lambda>cache.
     bnd (lift (ebind (py_get (JObj cache) (cps ''_items'') (JObj []))
            (\<lambda>items. py_get items (normalize_title (str_lower E) title) JNull))) (\<lambda>cached.
       if truthy cached then ret cached
       else
         bnd (http E (SearchItems title)) (\<lambda>r.
           if status_code r \<noteq> 200 then ret JNull else match_and_cache E title author r)))"

text \<open>
  \<^verbatim>\<open>
  def fetch_recent_and_match(title, author, last_mod_version, cache):
      try: since = max(int(last_mod_version) - 3, 0)
      except Exception: since = None
      params = {"limit": 25, "sort": "dateModified", "direction": "desc"}
      if since is not None: params["since"] = since
      r = requests.get(f"{API_BASE}/items", headers=HEADERS, params=params, timeout=20)
      if r.status_code != 200: return None
      want_title = normalize_title(title); want_author = normalize_author(author)
      <loop>
  \<close>
  \<open>int(None)\<close> raises as \<open>int\<close> of a string that is no number does.
\<close>

definition since_of :: "env \<Rightarrow> pystr option \<Rightarrow> int option" where
  "since_of E last_mod_version =
     (case last_mod_version of
        None \<Rightarrow> None
      | Some v \<Rightarrow> (case to_int E v of None \<Rightarrow> None | Some n \<Rightarrow> Some (max (n - 3) 0)))"

definition fetch_recent_and_match :: "env \<Rightarrow> pystr \<Rightarrow> pystr option \<Rightarrow> pystr option \<Rightarrow> json prog" where
  "fetch_recent_and_match E title author last_mod_version =
     bnd (http E (RecentItems (since_of E last_mod_version))) (\<lambda>r.
       if status_code r \<noteq> 200 then ret JNull else match_and_cache E title author r)"

text \<open>
  The end of \<open>find_or_create_book_item\<close>, over the attempts that are left:
  \<^verbatim>\<open>
  for attempt in range(3):
      time.sleep(1.0 + attempt)
      key = fetch_recent_and_match(title, author, lmv, cache)
      if key: return key
  print("Created book but couldn't retrieve key via response or recent-items match."); return None
  \<close>
\<close>

fun recover_key :: "env \<Rightarrow> pystr \<Rightarrow> pystr option \<Rightarrow> pystr option \<Rightarrow> nat list \<Rightarrow> json prog" where
  "recover_key E title author lmv [] = bnd (emit (Print CreatedNoKey)) (\<lambda>u. ret JNull)"
| "recover_key E title author lmv (attempt # rest) =
     bnd (emit (Sleep (1 + attempt))) (\<lambda>u.
     bnd (fetch_recent_and_match E title author lmv) (\<lambda>key.
       if truthy key then ret key else recover_key E title author lmv rest))"

text \<open>
  \<^verbatim>\<open>
  def find_or_create_book_item(title, author, collection_key, dry_run, cache):
      key = search_item_by_title(title, author, cache)
      if key: return key
      if dry_run:
          print(f"[DRY RUN] Would create book: {title}")
          return None
      creators = [{"creatorType":"author","firstName":"", "lastName": author}] if author else []
      data = {"itemType": "book", "title": title, "creators": creators}
      if collection_key: data["collections"] = [collection_key]
      r = safe_post(f"{API_BASE}/items", headers=HEADERS_JSON, json=[data], timeout=30)
      _debug_created_response(r)
      if r.status_code not in (200, 201):
          print("Failed to create book:", r.status_code, getattr(r, "text", "")); return None
      created_key = extract_created_key(r)
      if created_key:
          cache["_items"][normalize_title(title)] = created_key; return created_key
      lmv = r.headers.get("Last-Modified-Version") or r.headers.get("Last-Modified")
      <the three attempts>
  \<close>
\<close>

definition book_payload :: "pystr \<Rightarrow> pystr option \<Rightarrow> json \<Rightarrow> json" where
  "book_payload title author collection_key =
     JArr [JObj ([(cps ''itemType'', JStr (cps ''book'')), (cps ''title'', JStr title),
                  (cps ''creators'',
                   JArr (case author of
                           Some a \<Rightarrow>
                             if a \<noteq> [] then
                               [JObj [(cps ''creatorType'', JStr (cps ''author'')),
                                      (cps ''firstName'', JStr []), (cps ''lastName'', JStr a)]]
                             else []
                         | None \<Rightarrow> []))]
                 @ (if truthy collection_key then [(cps ''collections'', JArr [collection_key])]
                    else []))]"

definition find_or_create_book_item ::
    "config \<Rightarrow> env \<Rightarrow> pystr \<Rightarrow> pystr option \<Rightarrow> json \<Rightarrow> bool \<Rightarrow> json prog" where
  "find_or_create_book_item C E title author collection_key dry_run =
     bnd (search_item_by_title E title author) (\<lambda>key.
       if truthy key then ret key
       else if dry_run then bnd (emit (Print (WouldCreateBook title))) (\<lambda>u. ret JNull)
       else
         bnd (safe_post C E (PostItems (book_payload title author collection_key))) (\<lambda>r.
         bnd (emit (Print (DebugCreated (status_code r)))) (\<lambda>u.
           if status_code r \<noteq> 200 \<and> status_code r \<noteq> 201
           then bnd (emit (Print (FailedCreateBook (status_code r)))) (\<lambda>u. ret JNull)
           else
             (case extract_created_key r of
                Some created_key \<Rightarrow>
                  if truthy created_key
                  then bnd (cache_store (normalize_title (str_lower E) title) created_key)
                         (\<lambda>u. ret created_key)
                  else recover_key E title author
                         (header_or (headers r (cps ''Last-Modified-Version''))
                            (headers r (cps ''Last-Modified''))) [0, 1, 2]
              | None \<Rightarrow>
                  recover_key E title author
                    (header_or (headers r (cps ''Last-Modified-Version''))
                       (headers r (cps ''Last-Modified''))) [0, 1, 2]))))"

section \<open>Notes\<close>

text \<open>
  \<^verbatim>\<open>
  def create_note_for_item(item_key: str, note_html: str, dry_run: bool):
      payload = [{"itemType": "note", "parentItem": item_key, "note": note_html}]
      if dry_run:
          print("[DRY RUN] Would add note:", ...)
          return
      r = safe_post(f"{API_BASE}/items", headers=HEADERS_JSON, json=payload, timeout=20)
      if r.status_code not in (200, 201):
          print("Failed to add note:", r.status_code, r.text)
  \<close>
  The function returns \<open>None\<close> on every path: how the call went is printed, and not
  returned.
\<close>

definition note_payload :: "json \<Rightarrow> pystr \<Rightarrow> json" where
  "note_payload item_key note_html =
     JArr [JObj [(cps ''itemType'', JStr (cps ''note'')), (cps ''parentItem'', item_key),
                 (cps ''note'', JStr note_html)]]"

definition create_note_for_item :: "config \<Rightarrow> env \<Rightarrow> json \<Rightarrow> pystr \<Rightarrow> bool \<Rightarrow> unit prog" where
  "create_note_for_item C E item_key note_html dry_run =
     (if dry_run then emit (Print (WouldAddNote note_html))
      else
        bnd (safe_post C E (PostItems (note_payload item_key note_html))) (\<lambda>r.
          if status_code r \<noteq> 200 \<and> status_code r \<noteq> 201
          then emit (Print (FailedAddNote (status_code r)))
          else ret ()))"

text \<open>
  \<^verbatim>\<open>
  def note_html_from_highlight(h: dict) -> str:
      html = f"<blockquote>{h['text']}</blockquote>"
      if h.get("note"): html += f"<p><em>Note: {h['note']}</em></p>"
      if h.get("location"): html += f"<p><small>Location: {h['location']}</small></p>"
      return html
  \<close>
\<close>

definition note_html_from_highlight :: "highlight \<Rightarrow> pystr" where
  "note_html_from_highlight h =
     cps ''<blockquote>'' @ h_text h @ cps ''</blockquote>''
     @ (if or_empty (h_note h) \<noteq> []
        then cps ''<p><em>Note: '' @ or_empty (h_note h) @ cps ''</em></p>'' else [])
     @ (if or_empty (h_location h) \<noteq> []
        then cps ''<p><small>Location: '' @ or_empty (h_location h) @ cps ''</small></p>'' else [])"

section \<open>The main block\<close>

text \<open>A document as \<open>parse_kindle_md\<close> returns it: title, author, highlights.\<close>

type_synonym document = "pystr option \<times> pystr option \<times> highlight list"

text \<open>\<open>sent_log[title].append(h_id)\<close>\<close>

definition log_append :: "pystr \<Rightarrow> json \<Rightarrow> unit prog" where
  "log_append title v = (\<lambda>s.
     case map_of (sent_log s) title of
       None \<Rightarrow> (Inl KeyError, s)
     | Some (JArr xs) \<Rightarrow> (Inr (), s\<lparr>sent_log := dict_set title (JArr (xs @ [v])) (sent_log s)\<rparr>)
     | Some x \<Rightarrow> (Inl AttributeError, s))"

text \<open>
  The loop over the highlights of a document, with \<open>created_count\<close> as its last
  argument:
  \<^verbatim>\<open>
  for h in highlights:
      h_id = highlight_hash(h)
      if h_id in already:
          print(f"  Skipping duplicate: {h['text'][:60]}..."); continue
      html = note_html_from_highlight(h)
      create_note_for_item(item_key, html, DRY_RUN)
      if not DRY_RUN:
          sent_log[title].append(h_id); created_count += 1
  \<close>
  \<open>already\<close> is a set built before the loop; the loop reads it and never adds to it.
\<close>

fun highlight_loop ::
    "config \<Rightarrow> env \<Rightarrow> json \<Rightarrow> pystr \<Rightarrow> json list \<Rightarrow> highlight list \<Rightarrow> int \<Rightarrow> int prog" where
  "highlight_loop C E item_key title already [] created_count = ret created_count"
| "highlight_loop C E item_key title already (h # hs) created_count =
     (if JStr (highlight_hash (md5_hex E) h) \<in> set already
      then bnd (emit (Print (SkippingDuplicate (take 60 (h_text h))))) (\<lambda>u.
             highlight_loop C E item_key title already hs created_count)
      else
        bnd (create_note_for_item C E item_key (note_html_from_highlight h) (DRY_RUN C)) (\<lambda>u.
          if \<not> DRY_RUN C
          then bnd (log_append title (JStr (highlight_hash (md5_hex E) h))) (\<lambda>u.
                 highlight_loop C E item_key title already hs (created_count + 1))
          else highlight_loop C E item_key title already hs created_count))"

text \<open>
  \<^verbatim>\<open>
  sent_log.setdefault(title, [])
  already = set(sent_log[title])
  created_count = 0
  <loop>
  \<close>
\<close>

definition process_highlights ::
    "config \<Rightarrow> env \<Rightarrow> json \<Rightarrow> pystr \<Rightarrow> highlight list \<Rightarrow> int prog" where
  "process_highlights C E item_key title highlights =
     bnd get_sent_log (\<lambda>log0.
     bnd (put_sent_log (setdefault title (JArr []) log0)) (\<lambda>u.
     bnd get_sent_log (\<lambda>log.
     bnd (lift (case map_of log title of Some v \<Rightarrow> py_set v | None \<Rightarrow> Inl KeyError)) (\<lambda>already.
       highlight_loop C E item_key title already highlights 0))))"

text \<open>
  \<^verbatim>\<open>
  if not DRY_RUN:
      print(f"  New notes created: {created_count}")
      if norm_t not in done_set:
          sent_log["_done_titles"].append(norm_t); done_set.add(norm_t)
      save_sent_log(OBSIDIAN_VAULT_PATH, sent_log)
  \<close>
\<close>

definition mark_done :: "pystr \<Rightarrow> unit prog" where
  "mark_done norm_t = (\<lambda>s.
     if JStr norm_t \<in> set (done_set s) then (Inr (), s)
     else
       case map_of (sent_log s) (cps ''_done_titles'') of
         None \<Rightarrow> (Inl KeyError, s)
       | Some (JArr xs) \<Rightarrow>
           (Inr (), s\<lparr>sent_log := dict_set (cps ''_done_titles'') (JArr (xs @ [JStr norm_t])) (sent_log s),
                     done_set := done_set s @ [JStr norm_t]\<rparr>)
       | Some x \<Rightarrow> (Inl AttributeError, s))"

definition commit_title :: "config \<Rightarrow> env \<Rightarrow> pystr \<Rightarrow> int \<Rightarrow> unit prog" where
  "commit_title C E norm_t created_count =
     (if DRY_RUN C then ret ()
      else
        bnd (emit (Print (NewNotesCreated created_count))) (\<lambda>u.
        bnd (mark_done norm_t) (\<lambda>u.
        bnd get_sent_log (\<lambda>log. save_sent_log E log))))"

text \<open>
  One round of \<open>for md in md_files\<close>, on the document parsed from the file. The value is
  whether the loop is left by \<open>break\<close>.
  \<^verbatim>\<open>
  title, author, highlights = parse_kindle_md(md)
  if not title: continue
  if not title_matches_filters(title): continue
  matched += 1
  norm_t = normalize_title(title)
  if RESUME_ENABLED and not DRY_RUN and norm_t in done_set:
      print(f"Skipping (already completed in previous run): {title}")
      continue
  print(f"Processing: {title} ({author}) - {len(highlights)} highlights")
  item_key = find_or_create_book_item(title, author, collection_key, DRY_RUN, sent_log)
  if item_key:
      if collection_key and not DRY_RUN:
          ensure_item_in_collection(item_key, collection_key, DRY_RUN)
  else:
      msg = ...
      print(msg); continue
  <highlights>
  <commit>
  processed += 1
  if BATCH_LIMIT and processed >= BATCH_LIMIT:
      print(f"Reached BATCH_LIMIT={BATCH_LIMIT}. Stopping early."); break
  \<close>
\<close>

definition count_processed :: "config \<Rightarrow> bool prog" where
  "count_processed C = (\<lambda>s.
     if BATCH_LIMIT C \<noteq> 0 \<and> processed s + 1 \<ge> BATCH_LIMIT C
     then (Inr True, s\<lparr>processed := processed s + 1, trace := trace s @ [Print ReachedBatchLimit]\<rparr>)
     else (Inr False, s\<lparr>processed := processed s + 1\<rparr>))"

definition process_title ::
    "config \<Rightarrow> env \<Rightarrow> json \<Rightarrow> pystr \<Rightarrow> pystr option \<Rightarrow> highlight list \<Rightarrow> bool prog" where
  "process_title C E collection_key title author highlights =
     bnd (emit (Print (Processing title author (length highlights)))) (\<lambda>u.
     bnd (find_or_create_book_item C E title author collection_key (DRY_RUN C)) (\<lambda>item_key.
       if \<not> truthy item_key then bnd (emit (Print (SkippingNotes (DRY_RUN C)))) (\<lambda>u. ret False)
       else
         bnd (if truthy collection_key \<and> \<not> DRY_RUN C
              then ensure_item_in_collection C E item_key collection_key (DRY_RUN C)
              else ret ()) (\<lambda>u.
         bnd (process_highlights C E item_key title highlights) (\<lambda>created_count.
         bnd (commit_title C E (normalize_title (str_lower E) title) created_count) (\<lambda>u.
           count_processed C)))))"

definition loop_body :: "config \<Rightarrow> env \<Rightarrow> json \<Rightarrow> document \<Rightarrow> bool prog" where
  "loop_body C E collection_key doc =
     (case doc of (title_opt, author, highlights) \<Rightarrow>
        if or_empty title_opt = [] then ret False
        else if \<not> title_matches_filters C E (or_empty title_opt) then ret False
        else (\<lambda>s.
          if RESUME_ENABLED C \<and> \<not> DRY_RUN C
             \<and> JStr (normalize_title (str_lower E) (or_empty title_opt)) \<in> set (done_set s)
          then (Inr False, s\<lparr>matched := matched s + 1,
                  trace := trace s @ [Print (SkippingCompleted (or_empty title_opt))]\<rparr>)
          else process_title C E collection_key (or_empty title_opt) author highlights
                 (s\<lparr>matched := matched s + 1\<rparr>)))"

fun main_loop :: "config \<Rightarrow> env \<Rightarrow> json \<Rightarrow> document list \<Rightarrow> unit prog" where
  "main_loop C E collection_key [] = ret ()"
| "main_loop C E collection_key (doc # docs) =
     bnd (loop_body C E collection_key doc) (\<lambda>stop.
       if stop then ret () else main_loop C E collection_key docs)"

text \<open>
  \<open>confirm_live_or_abort\<close> shows a dialog of the \<open>pyto_ui\<close> library and leaves the program
  by \<open>sys.exit(0)\<close> unless it is answered with SEND NOW.
\<close>

definition confirm_live_or_abort :: "env \<Rightarrow> unit prog" where
  "confirm_live_or_abort E =
     (if confirmed E then emit (Print DebugAlert)
      else bnd (emit (Print LiveCanceled)) (\<lambda>u. throw SystemExit))"

text \<open>
  The main block, on the documents parsed from the markdown files of the vault, in the
  order of \<open>sorted(vault.rglob("*.md"))\<close>.
  \<^verbatim>\<open>
  print(">>> Config DRY_RUN:", DRY_RUN)
  if not DRY_RUN: confirm_live_or_abort()
  ...
  md_files = sorted(vault.rglob("*.md"))
  print(f"Found {len(md_files)} markdown files (recursive).")
  if not md_files:
      print("No markdown files found. ..."); sys.exit(0)
  collection_key = get_or_create_collection(COLLECTION_NAME, DRY_RUN)
  if DRY_RUN and collection_key is None:
      print(f"[DRY RUN] (Collection '{COLLECTION_NAME}' will be created or used)")
  sent_log = load_sent_log(OBSIDIAN_VAULT_PATH)
  done_set = set(sent_log.get("_done_titles", []))
  processed = 0
  matched = 0
  <loop>
  print(f"Done. Matched titles: {matched}, Processed: {processed}.")
  \<close>
\<close>

definition start_loop :: "dict \<Rightarrow> json list \<Rightarrow> unit prog" where
  "start_loop log done = (\<lambda>s.
     (Inr (), s\<lparr>sent_log := log, done_set := done, processed := 0, matched := 0\<rparr>))"

definition print_done :: "unit prog" where
  "print_done = (\<lambda>s. (Inr (), s\<lparr>trace := trace s @ [Print (Done (matched s) (processed s))]\<rparr>))"

definition main :: "config \<Rightarrow> env \<Rightarrow> document list \<Rightarrow> unit prog" where
  "main C E docs =
     bnd (emit (Print (ConfigDryRun (DRY_RUN C)))) (\<lambda>u.
     bnd (if \<not> DRY_RUN C then confirm_live_or_abort E else ret ()) (\<lambda>u.
     bnd (emit (Print VaultPath)) (\<lambda>u.
     bnd (emit (Print VaultExists)) (\<lambda>u.
     bnd (emit (Print (FoundFiles (length docs)))) (\<lambda>u.
       if docs = [] then bnd (emit (Print NoMarkdown)) (\<lambda>u. throw SystemExit)
       else
         bnd (get_or_create_collection C E (COLLECTION_NAME C) (DRY_RUN C)) (\<lambda>collection_key.
         bnd (if DRY_RUN C \<and> collection_key = JNull then emit (Print CollectionWillBeCreated)
              else ret ()) (\<lambda>u.
         bnd (lift (load_sent_log (primary_file E) (fallback_file E))) (\<lambda>log.
         bnd (lift (case map_of log (cps ''_done_titles'') of
                      Some v \<Rightarrow> py_set v | None \<Rightarrow> Inr [])) (\<lambda>done.
         bnd (start_loop log done) (\<lambda>u.
         bnd (main_loop C E collection_key docs) (\<lambda>u. print_done)))))))))))"

section \<open>Settings and inputs for the examples\<close>

text \<open>The settings as the module has them: \<open>DRY_RUN = False\<close>, \<open>RESUME_ENABLED = True\<close>,
  \<open>ONLY_TITLES = []\<close>, \<open>BATCH_LIMIT = 0\<close>, \<open>COLLECTION_NAME = "Books"\<close>; and the same with
  \<open>DRY_RUN = True\<close>.\<close>

definition module_config :: config where
  "module_config = \<lparr>DRY_RUN = False, RESUME_ENABLED = True, ONLY_TITLES = [], BATCH_LIMIT = 0,
     COLLECTION_NAME = cps ''Books''\<rparr>"

definition dry_config :: config where
  "dry_config = module_config\<lparr>DRY_RUN := True\<rparr>"

text \<open>An environment with a given network and file system, for the examples: the
  lower-casing is that of ASCII, the digest is the string itself, the dialog is
  confirmed, and no sent-log file exists.\<close>

definition example_env ::
    "(event list \<Rightarrow> request \<Rightarrow> response option) \<Rightarrow> (event list \<Rightarrow> fs_op \<Rightarrow> bool) \<Rightarrow> env" where
  "example_env n f = \<lparr>str_lower = ascii_lower, md5_hex = (\<lambda>x. x), to_int = (\<lambda>x. None),
     net = n, fs = f, confirmed = True, primary_file = Missing, fallback_file = Missing\<rparr>"

text \<open>The state at the start of the loop when no sent-log file exists.\<close>

definition fresh_state :: state where
  "fresh_state = \<lparr>trace = [], sent_log = [(cps ''_items'', JObj []), (cps ''_done_titles'', JArr [])],
     done_set = [], processed = 0, matched = 0\<rparr>"

text \<open>A response with a status and a body, and no headers.\<close>

definition plain_response :: "int \<Rightarrow> json \<Rightarrow> response" where
  "plain_response st b = \<lparr>status_code = st, body = Some b, headers = (\<lambda>k. None), resp_text = []\<rparr>"

section \<open>What the claims speak of\<close>

text \<open>
  The events \<open>evs\<close> end with the sent-log \<open>log\<close> written: to the vault, or, after an
  operation on the vault has failed, to the local file, with the warning printed.
\<close>

definition persisted :: "dict \<Rightarrow> event list \<Rightarrow> bool" where
  "persisted log evs =
     (\<exists>pre. evs = pre @ [Fs (WritePrimary log) True]
        \<or> (\<exists>op. evs = pre @ [Fs op False, Fs (WriteFallback log) True, Print SavedLocally]))"

text \<open>The network calls among some events, in order.\<close>

fun net_requests :: "event list \<Rightarrow> request list" where
  "net_requests [] = []"
| "net_requests (Net r # es) = r # net_requests es"
| "net_requests (e # es) = net_requests es"

text \<open>The fingerprints that the sent-log holds for a title before its highlights are
  processed: none when the title has no entry, those of its list when it has one (of
  values that a set can hold).\<close>

definition sent_before :: "dict \<Rightarrow> pystr \<Rightarrow> json list option" where
  "sent_before log title =
     (case map_of log title of
        None \<Rightarrow> Some []
      | Some (JArr xs) \<Rightarrow> if list_all hashable xs then Some xs else None
      | Some v \<Rightarrow> None)"

text \<open>The fingerprint of a highlight as the sent-log holds it, and the call that creates
  the note of a highlight.\<close>

definition fingerprint :: "env \<Rightarrow> highlight \<Rightarrow> json" where
  "fingerprint E h = JStr (highlight_hash (md5_hex E) h)"

definition note_request :: "json \<Rightarrow> highlight \<Rightarrow> request" where
  "note_request item_key h = PostItems (note_payload item_key (note_html_from_highlight h))"

text \<open>
  \<open>emits P f\<close>: whatever the state, all that \<open>f\<close> does is added at the end of the trace,
  and every event it adds satisfies \<open>P\<close>, also when \<open>f\<close> raises.
\<close>

definition emits :: "(event \<Rightarrow> bool) \<Rightarrow> 'a prog \<Rightarrow> bool" where
  "emits P f = (\<forall>s. \<exists>evs. trace (snd (f s)) = trace s @ evs \<and> list_all P evs)"

text \<open>The events that change nothing outside the program: network calls that are not
  POST or PUT, sleeps and prints. No file operation is one: all of them write.\<close>

fun read_only :: "event \<Rightarrow> bool" where
  "read_only (Net r) = (\<not> is_write r)"
| "read_only (Fs op b) = False"
| "read_only (Sleep n) = True"
| "read_only (Print m) = True"

text \<open>\<open>P\<close> holds of every print, sleep and reading call, and of every event at all unless
  \<open>DRY_RUN\<close> is set.\<close>

definition permits :: "(event \<Rightarrow> bool) \<Rightarrow> config \<Rightarrow> bool" where
  "permits P C = ((\<forall>m. P (Print m)) \<and> (\<forall>n. P (Sleep n)) \<and> (\<forall>r. \<not> is_write r \<longrightarrow> P (Net r))
      \<and> (\<not> DRY_RUN C \<longrightarrow> (\<forall>e. P e)))"

text \<open>A network for the examples: the title search finds one item, with the key \<open>K1\<close> and
  the title \<open>T\<close>; every other listing is empty.\<close>

definition search_hit :: "event list \<Rightarrow> request \<Rightarrow> response option" where
  "search_hit tr req =
     (case req of
        SearchItems t \<Rightarrow>
          Some (plain_response 200 (JArr [JObj [(cps ''key'', JStr (cps ''K1'')), (cps ''title'', JStr (cps ''T''))]]))
      | _ \<Rightarrow> Some (plain_response 200 (JArr [])))"

text \<open>The title that a listed item shows: that of its \<open>data\<close> object when it has one, its
  own otherwise, and the empty string when there is none. Nothing for what is no object.\<close>

definition listed_title :: "json \<Rightarrow> json option" where
  "listed_title it =
     (case it of
        JObj d \<Rightarrow>
          (case map_of d (cps ''data'') of
             None \<Rightarrow> Some (case map_of d (cps ''title'') of Some v \<Rightarrow> v | None \<Rightarrow> JStr [])
           | Some (JObj dd) \<Rightarrow> Some (case map_of dd (cps ''title'') of Some v \<Rightarrow> v | None \<Rightarrow> JStr [])
           | Some v \<Rightarrow> None)
      | _ \<Rightarrow> None)"

text \<open>A listed item whose title is a string that normalizes to something else than the
  wanted title.\<close>

definition other_title :: "(pystr \<Rightarrow> pystr) \<Rightarrow> pystr \<Rightarrow> json \<Rightarrow> bool" where
  "other_title low want it =
     (case listed_title it of Some (JStr t) \<Rightarrow> normalize_title low t \<noteq> want | _ \<Rightarrow> False)"

text \<open>A listing that offers no match for a title: its status is not 200, or it is a list
  of items that all have another title.\<close>

definition no_title_match :: "env \<Rightarrow> pystr \<Rightarrow> response \<Rightarrow> bool" where
  "no_title_match E title r =
     (status_code r \<noteq> 200
      \<or> (case body r of
            Some (JArr items) \<Rightarrow>
              list_all (other_title (str_lower E) (normalize_title (str_lower E) title)) items
          | _ \<Rightarrow> False))"

text \<open>The version that a response reports: its \<open>Last-Modified-Version\<close> header, and
  \<open>Last-Modified\<close> when that is absent or empty.\<close>

definition version_header :: "(pystr \<Rightarrow> pystr option) \<Rightarrow> pystr option" where
  "version_header hdrs =
     (case hdrs (cps ''Last-Modified-Version'') of
        Some v \<Rightarrow> if v = [] then hdrs (cps ''Last-Modified'') else Some v
      | None \<Rightarrow> hdrs (cps ''Last-Modified''))"

text \<open>The \<open>since\<close> of a listing after a creation: three versions before the one that the
  creation response reports, and not below 0; none when the response reports no
  version, or one that is no integer.\<close>

definition recency_bound :: "env \<Rightarrow> (pystr \<Rightarrow> pystr option) \<Rightarrow> int option" where
  "recency_bound E hdrs =
     (case version_header hdrs of
        None \<Rightarrow> None
      | Some v \<Rightarrow> map_option (\<lambda>n. max (n - 3) 0) (to_int E v))"

text \<open>\<open>int(v)\<close> on a string of ASCII digits; the examples apply it to no other string
  that \<open>int\<close> accepts.\<close>

definition digits_int :: "pystr \<Rightarrow> int option" where
  "digits_int v =
     (if v \<noteq> [] \<and> list_all (\<lambda>c. 48 \<le> c \<and> c \<le> 57) v
      then Some (foldl (\<lambda>n c. 10 * n + int (c - 48)) 0 v)
      else None)"

text \<open>A creation response with the status 200, the body \<open>{}\<close> and no \<open>Location\<close>: no key
  can be read from it. It reports the given version, if any.\<close>

definition created_no_key :: "pystr option \<Rightarrow> response" where
  "created_no_key version =
     \<lparr>status_code = 200, body = Some (JObj []),
      headers = (\<lambda>k. if k = cps ''Last-Modified-Version'' then version else None),
      resp_text = []\<rparr>"

text \<open>A network for the examples: the title search finds nothing, the creation answers
  with \<open>created_no_key\<close>, and every listing of recent items has the given body.\<close>

definition no_key_net :: "pystr option \<Rightarrow> json \<Rightarrow> event list \<Rightarrow> request \<Rightarrow> response option" where
  "no_key_net version recent tr req =
     (case req of
        SearchItems t \<Rightarrow> Some (plain_response 200 (JArr []))
      | PostItems p \<Rightarrow> Some (created_no_key version)
      | RecentItems b \<Rightarrow> Some (plain_response 200 recent)
      | _ \<Rightarrow> None)"

definition recovery_env :: "pystr option \<Rightarrow> json \<Rightarrow> env" where
  "recovery_env version recent =
     (example_env (no_key_net version recent) (\<lambda>tr op. True))\<lparr>to_int := digits_int\<rparr>"

section \<open>Splitting and joining\<close>

definition word_ok :: "pystr \<Rightarrow> bool" where
  "word_ok w = (w \<noteq> [] \<and> list_all (\<lambda>c. \<not> is_space c) w)"

lemma split_ws_acc_words:
  "list_all (\<lambda>c. \<not> is_space c) w \<Longrightarrow> list_all word_ok (split_ws_acc w s)"
  by (induction s arbitrary: w) (auto simp: word_ok_def)

lemma split_ws_acc_chars:
  "\<Union> (set ` set (split_ws_acc w s)) \<subseteq> set w \<union> set s"
proof (induction s arbitrary: w)
  case Nil
  then show ?case by simp
next
  case (Cons c cs)
  show ?case
    using Cons.IH [of "[]"] Cons.IH [of "w @ [c]"] by auto
qed

lemma split_ws_acc_append:
  "list_all (\<lambda>c. \<not> is_space c) v \<Longrightarrow> split_ws_acc w (v @ r) = split_ws_acc (w @ v) r"
  by (induction v arbitrary: w) auto

lemma split_ws_join_sp:
  "list_all word_ok ws \<Longrightarrow> split_ws_acc [] (join_sp ws) = ws"
proof (induction ws rule: join_sp.induct)
  case 1
  then show ?case by simp
next
  case (2 w)
  then have "split_ws_acc [] (w @ []) = split_ws_acc ([] @ w) []"
    by (intro split_ws_acc_append) (simp add: word_ok_def)
  with 2 show ?case by (simp add: word_ok_def)
next
  case (3 w v ws)
  then have "split_ws_acc [] (w @ 32 # join_sp (v # ws)) = split_ws_acc ([] @ w) (32 # join_sp (v # ws))"
    by (intro split_ws_acc_append) (simp add: word_ok_def)
  with 3 show ?case by (simp add: word_ok_def is_space_def)
qed

lemma join_sp_chars: "set (join_sp ws) \<subseteq> insert 32 (\<Union> (set ` set ws))"
  by (induction ws rule: join_sp.induct) auto

lemma join_sp_filter:
  "\<not> P 32 \<Longrightarrow> filter (\<lambda>c. \<not> P c) (join_sp ws) = join_sp (map (filter (\<lambda>c. \<not> P c)) ws)"
  by (induction ws rule: join_sp.induct) auto

lemma join_sp_Nil: "list_all word_ok ws \<Longrightarrow> join_sp ws = [] \<Longrightarrow> ws = []"
  by (induction ws rule: join_sp.induct) (auto simp: word_ok_def)

lemma ascii_lower_fixed:
  "set t \<subseteq> insert 32 (set (ascii_lower s)) \<Longrightarrow> ascii_lower t = t"
proof -
  assume a: "set t \<subseteq> insert 32 (set (ascii_lower s))"
  have "\<forall>c \<in> set t. \<not> (65 \<le> c \<and> c \<le> 90)"
  proof
    fix c assume "c \<in> set t"
    with a have "c = 32 \<or> c \<in> set (ascii_lower s)" by auto
    then show "\<not> (65 \<le> c \<and> c \<le> 90)"
      by (auto simp: ascii_lower_def)
  qed
  then show ?thesis
    by (simp add: ascii_lower_def map_idI)
qed

section \<open>Title normalization is idempotent\<close>

text \<open>
  C9. Title normalization is idempotent: \<open>normalize_title (normalize_title s)\<close> is
  \<open>normalize_title s\<close> for every string \<open>s\<close>. The one property of \<open>str.lower\<close> used is
  that it leaves alone every string made of the characters of a lower-cased string and
  of the space: lower-casing never yields a character that lower-casing changes.
\<close>

theorem normalize_title_idempotent:
  assumes low: "\<And>s t. set t \<subseteq> insert 32 (set (lower s)) \<Longrightarrow> lower t = t"
  shows "normalize_title lower (normalize_title lower s) = normalize_title lower s"
proof (cases "s = []")
  case True
  then show ?thesis by (simp add: normalize_title_def)
next
  case False
  define ws where "ws = split_ws (translate_del (lower s))"
  define out where "out = join_sp ws"
  have out: "normalize_title lower s = out"
    using False by (simp add: normalize_title_def ws_def out_def)
  have words: "list_all word_ok ws"
    unfolding ws_def split_ws_def by (rule split_ws_acc_words) simp
  have chars: "\<Union> (set ` set ws) \<subseteq> set (translate_del (lower s))"
    using split_ws_acc_chars [of "[]" "translate_del (lower s)"]
    by (simp add: ws_def split_ws_def)
  have "set out \<subseteq> insert 32 (set (lower s))"
    using join_sp_chars [of ws] chars by (auto simp: out_def translate_del_def)
  then have lower_out: "lower out = out" by (rule low)
  have "map (filter (\<lambda>c. \<not> is_punct c)) ws = ws"
  proof (rule map_idI)
    fix w assume "w \<in> set ws"
    with chars have "\<forall>c \<in> set w. \<not> is_punct c"
      by (auto simp: translate_del_def)
    then show "filter (\<lambda>c. \<not> is_punct c) w = w" by simp
  qed
  moreover have "\<not> is_punct 32" by (simp add: is_punct_def)
  ultimately have del_out: "translate_del out = out"
    by (simp add: translate_del_def out_def join_sp_filter)
  have split_out: "split_ws out = ws"
    using words by (simp add: split_ws_def out_def split_ws_join_sp)
  show ?thesis
    unfolding out
    by (simp add: normalize_title_def lower_out del_out split_out out_def [symmetric])
qed

theorem normalize_title_idempotent_witness:
  "normalize_title ascii_lower (cps '' Deep  Work: \"Rules\"! '') = cps ''deep work rules''
   \<and> normalize_title ascii_lower (normalize_title ascii_lower (cps '' Deep  Work: \"Rules\"! ''))
       = cps ''deep work rules''"
proof -
  have v: "normalize_title ascii_lower (cps '' Deep  Work: \"Rules\"! '') = cps ''deep work rules''"
    by (simp add: normalize_title_def ascii_lower_def translate_del_def is_punct_def
        split_ws_def is_space_def cps_def)
  have "normalize_title ascii_lower (normalize_title ascii_lower (cps '' Deep  Work: \"Rules\"! ''))
        = normalize_title ascii_lower (cps '' Deep  Work: \"Rules\"! '')"
    by (rule normalize_title_idempotent) (rule ascii_lower_fixed)
  with v show ?thesis by simp
qed

section \<open>Key extraction: three strategies in order\<close>

lemma cps_items: "cps ''/items/'' = [47, 105, 116, 101, 109, 115, 47]"
  by (simp add: cps_def)

lemma cps_items_not_Nil: "cps ''/items/'' \<noteq> []"
  by (simp add: cps_def)

lemma successful_loop_map_filter:
  "successful_loop vs = (case List.map_filter usable_entry vs of [] \<Rightarrow> None | k # ks \<Rightarrow> Some k)"
proof (induction vs)
  case Nil
  show ?case by (simp add: List.map_filter_simps)
next
  case (Cons v vs)
  have "successful_loop (v # vs)
      = (case usable_entry v of Some k \<Rightarrow> Some k | None \<Rightarrow> successful_loop vs)"
    by (cases v) (simp_all add: usable_entry_def truthy_field_def split: option.splits)
  then show ?case
    by (simp add: Cons List.map_filter_simps split: option.splits)
qed

lemma take_prefix: "(take (length sub) s = sub) = (\<exists>t. s = sub @ t)"
proof
  assume "take (length sub) s = sub"
  then have "s = sub @ drop (length sub) s"
    by (metis append_take_drop_id)
  then show "\<exists>t. s = sub @ t" ..
next
  assume "\<exists>t. s = sub @ t"
  then show "take (length sub) s = sub" by auto
qed

lemma contains_occurs: "contains sub s = occurs sub s"
proof (induction s)
  case Nil
  show ?case by (auto simp: occurs_def)
next
  case (Cons c cs)
  have "occurs sub (c # cs) = ((\<exists>t. c # cs = sub @ t) \<or> occurs sub cs)"
  proof
    assume "occurs sub (c # cs)"
    then obtain p t where pt: "c # cs = p @ sub @ t" by (auto simp: occurs_def)
    show "(\<exists>t. c # cs = sub @ t) \<or> occurs sub cs"
    proof (cases p)
      case Nil
      with pt show ?thesis by auto
    next
      case (Cons a p')
      with pt have "cs = p' @ sub @ t" by simp
      then show ?thesis by (auto simp: occurs_def)
    qed
  next
    assume "(\<exists>t. c # cs = sub @ t) \<or> occurs sub cs"
    then show "occurs sub (c # cs)"
    proof
      assume "\<exists>t. c # cs = sub @ t"
      then obtain t where "c # cs = [] @ sub @ t" by auto
      then show ?thesis unfolding occurs_def by blast
    next
      assume "occurs sub cs"
      then obtain p t where "cs = p @ sub @ t" by (auto simp: occurs_def)
      then have "c # cs = (c # p) @ sub @ t" by simp
      then show ?thesis unfolding occurs_def by blast
    qed
  qed
  then show ?case
    using Cons take_prefix [of sub "c # cs"] by simp
qed

lemma find_last_None: "sep \<noteq> [] \<Longrightarrow> (find_last sep s = None) = (\<not> contains sep s)"
  by (induction s) (auto split: option.splits)

lemma find_last_split:
  assumes "sep \<noteq> []" "\<not> contains sep (tl (sep @ suf))"
  shows "find_last sep (pre @ sep @ suf) = Some suf"
proof (induction pre)
  case Nil
  from assms(1) obtain c cs where c: "sep @ suf = c # cs" by (cases sep) auto
  with assms have "find_last sep cs = None" by (simp add: find_last_None)
  moreover have "take (length sep) (sep @ suf) = sep" by simp
  ultimately show ?case
    using c by (metis append_Nil find_last.simps(2) option.simps(4) append_eq_conv_conj)
next
  case (Cons a pre)
  then show ?case by simp
qed

lemma trailing_segment_suffix:
  "47 \<notin> set suf \<Longrightarrow> trailing_segment (pre @ cps ''/items/'' @ suf) = suf"
proof -
  assume a: "47 \<notin> set suf"
  then have "\<forall>c \<in> set (rev suf). c \<noteq> 47" by auto
  then have "takeWhile (\<lambda>c. c \<noteq> 47) (rev suf @ 47 # rest) = rev suf" for rest :: pystr
    by (simp add: takeWhile_tail)
  then show ?thesis
    by (simp add: trailing_segment_def cps_items)
qed

lemma header_or_location:
  "header_or (hdrs (cps ''Location'')) (hdrs (cps ''location'')) = location_header hdrs"
  by (simp add: header_or_def location_header_def split: option.splits)

lemma from_location_found:
  assumes "location_header (headers r) = Some (pre @ cps ''/items/'' @ suf)"
    and "\<not> occurs (cps ''/items/'') (tl (cps ''/items/'' @ suf))"
  shows "from_location r = Some (JStr (strip suf))"
proof -
  have "occurs (cps ''/items/'') (pre @ cps ''/items/'' @ suf)"
    unfolding occurs_def by blast
  then have c: "contains (cps ''/items/'') (pre @ cps ''/items/'' @ suf)"
    by (simp add: contains_occurs)
  have "find_last (cps ''/items/'') (pre @ cps ''/items/'' @ suf) = Some suf"
    using assms(2) by (intro find_last_split) (simp_all add: cps_items_not_Nil contains_occurs)
  then have "rsplit_last (cps ''/items/'') (pre @ cps ''/items/'' @ suf) = suf"
    by (simp add: rsplit_last_def)
  with c assms(1) show ?thesis
    by (simp add: from_location_def header_or_location cps_items_not_Nil)
qed

lemma from_location_none:
  assumes "location_header (headers r) = None
     \<or> (\<exists>loc. location_header (headers r) = Some loc \<and> \<not> occurs (cps ''/items/'') loc)"
  shows "from_location r = None"
  using assms
  by (auto simp: from_location_def header_or_location contains_occurs split: option.splits)

lemma from_list_chain:
  "from_list data r =
     (case strategy_first_element (Some data) of Some k \<Rightarrow> Some k | None \<Rightarrow> from_location r)"
proof (cases data)
  case (JArr xs)
  show ?thesis
  proof (cases xs)
    case Nil
    with JArr show ?thesis
      by (simp add: from_list_def strategy_first_element_def)
  next
    case (Cons first rest)
    show ?thesis
    proof (cases first)
      case (JObj f)
      with JArr Cons show ?thesis
        by (cases "map_of f (cps ''key'')"; cases "map_of f (cps ''data'')")
          (simp_all add: from_list_def strategy_first_element_def truthy_field_def
            split: json.splits option.splits)
    qed (simp_all add: JArr Cons from_list_def strategy_first_element_def)
  qed
qed (simp_all add: from_list_def strategy_first_element_def)

lemma extract_created_key_chain:
  "extract_created_key r =
     (case strategy_success_map (body r) of
        Some k \<Rightarrow> Some k
      | None \<Rightarrow>
          (case strategy_first_element (body r) of Some k \<Rightarrow> Some k | None \<Rightarrow> from_location r))"
proof (cases "body r")
  case None
  then show ?thesis
    by (simp add: extract_created_key_def strategy_success_map_def from_list_chain
        strategy_first_element_def)
next
  case (Some data)
  show ?thesis
  proof (cases "strategy_success_map (Some data)")
    case None
    then have "extract_created_key r = from_list data r"
      using Some
      by (auto simp: extract_created_key_def strategy_success_map_def
          successful_loop_map_filter split: json.splits option.splits list.splits)
    with None Some show ?thesis by (simp add: from_list_chain)
  next
    case (Some k)
    then have "extract_created_key r = Some k"
      using \<open>body r = Some data\<close>
      by (auto simp: extract_created_key_def strategy_success_map_def
          successful_loop_map_filter split: json.splits option.splits list.splits)
    with Some \<open>body r = Some data\<close> show ?thesis by simp
  qed
qed

text \<open>
  C4, as the code has it. Key extraction tries three strategies in this order, each a
  total function to a key or nothing.
  (a) The first entry of the success map, in its order, that is an object with a truthy
  \<open>key\<close> or a non-empty string, gives the result.
  (b) Otherwise the first element of a list response does, when it is an object with a
  truthy \<open>key\<close>, directly or under \<open>data\<close>.
  (c) Otherwise the location header does, when it has \<open>/items/\<close> in it: the result is
  all that follows the last \<open>/items/\<close>, stripped of surrounding whitespace. That is the
  trailing path segment when it has no \<open>/\<close> in it; it may hold further segments, and it
  may be the empty string.
  The result is nothing when (a) and (b) yield nothing and there is no location header
  or it has no \<open>/items/\<close> in it.
  (a) reads a body that is an object and (b) one that is a list, so at most one of the
  two yields a key; what the order decides is that either of them goes before (c).
\<close>

theorem extract_created_key_priority:
  "(strategy_success_map (body r) = Some k \<longrightarrow> extract_created_key r = Some k)
   \<and> (strategy_success_map (body r) = None \<and> strategy_first_element (body r) = Some k
        \<longrightarrow> extract_created_key r = Some k)
   \<and> (strategy_success_map (body r) = None \<and> strategy_first_element (body r) = None
        \<and> location_header (headers r) = Some (pre @ cps ''/items/'' @ suf)
        \<and> \<not> occurs (cps ''/items/'') (tl (cps ''/items/'' @ suf))
        \<longrightarrow> extract_created_key r = Some (JStr (strip suf))
           \<and> (47 \<notin> set suf \<longrightarrow> trailing_segment (pre @ cps ''/items/'' @ suf) = suf))
   \<and> (strategy_success_map (body r) = None \<and> strategy_first_element (body r) = None
        \<and> (location_header (headers r) = None
           \<or> (\<exists>loc. location_header (headers r) = Some loc \<and> \<not> occurs (cps ''/items/'') loc))
        \<longrightarrow> extract_created_key r = None)"
proof (intro conjI impI)
  assume "strategy_success_map (body r) = Some k"
  then show "extract_created_key r = Some k"
    by (simp add: extract_created_key_chain)
next
  assume "strategy_success_map (body r) = None \<and> strategy_first_element (body r) = Some k"
  then show "extract_created_key r = Some k"
    by (simp add: extract_created_key_chain)
next
  assume a: "strategy_success_map (body r) = None \<and> strategy_first_element (body r) = None
        \<and> location_header (headers r) = Some (pre @ cps ''/items/'' @ suf)
        \<and> \<not> occurs (cps ''/items/'') (tl (cps ''/items/'' @ suf))"
  then have "from_location r = Some (JStr (strip suf))"
    by (intro from_location_found) simp_all
  with a show "extract_created_key r = Some (JStr (strip suf))"
    by (simp add: extract_created_key_chain)
next
  assume "47 \<notin> set suf"
  then show "trailing_segment (pre @ cps ''/items/'' @ suf) = suf"
    by (rule trailing_segment_suffix)
next
  assume a: "strategy_success_map (body r) = None \<and> strategy_first_element (body r) = None
        \<and> (location_header (headers r) = None
           \<or> (\<exists>loc. location_header (headers r) = Some loc \<and> \<not> occurs (cps ''/items/'') loc))"
  then have "from_location r = None"
    by (intro from_location_none) simp
  with a show "extract_created_key r = None"
    by (simp add: extract_created_key_chain)
qed

theorem extract_created_key_priority_witness:
  "extract_created_key \<lparr>status_code = 200,
       body = Some (JObj [(cps ''successful'', JObj [(cps ''0'', JObj [(cps ''key'', JStr (cps ''AB12''))])])]),
       headers = (\<lambda>h. if h = cps ''Location'' then Some (cps ''/items/ZZ99'') else None),
       resp_text = []\<rparr> = Some (JStr (cps ''AB12''))
   \<and> extract_created_key \<lparr>status_code = 200,
       body = Some (JArr [JObj [(cps ''data'', JObj [(cps ''key'', JStr (cps ''CD34''))])]]),
       headers = (\<lambda>h. if h = cps ''Location'' then Some (cps ''/items/ZZ99'') else None),
       resp_text = []\<rparr> = Some (JStr (cps ''CD34''))
   \<and> extract_created_key \<lparr>status_code = 200, body = None,
       headers = (\<lambda>h. if h = cps ''Location'' then Some (cps ''/users/1/items/EF56'') else None),
       resp_text = []\<rparr> = Some (JStr (cps ''EF56''))
   \<and> trailing_segment (cps ''/users/1/items/EF56'') = cps ''EF56''
   \<and> extract_created_key \<lparr>status_code = 200, body = Some (JObj []), headers = (\<lambda>h. None),
       resp_text = []\<rparr> = None"
proof -
  let ?h = "\<lambda>h. if h = cps ''Location'' then Some (cps ''/items/ZZ99'') else None"
  let ?r1 = "\<lparr>status_code = 200,
       body = Some (JObj [(cps ''successful'', JObj [(cps ''0'', JObj [(cps ''key'', JStr (cps ''AB12''))])])]),
       headers = ?h, resp_text = []\<rparr>"
  let ?r2 = "\<lparr>status_code = 200,
       body = Some (JArr [JObj [(cps ''data'', JObj [(cps ''key'', JStr (cps ''CD34''))])]]),
       headers = ?h, resp_text = []\<rparr>"
  let ?r3 = "\<lparr>status_code = 200, body = None,
       headers = (\<lambda>h. if h = cps ''Location'' then Some (cps ''/users/1/items/EF56'') else None),
       resp_text = []\<rparr>"
  let ?r4 = "\<lparr>status_code = 200, body = Some (JObj []), headers = (\<lambda>h. None),
       resp_text = ([] :: pystr)\<rparr>"
  have a1: "strategy_success_map (body ?r1) = Some (JStr (cps ''AB12''))"
    by (simp add: strategy_success_map_def List.map_filter_simps usable_entry_def
        truthy_field_def cps_def)
  have 1: "extract_created_key ?r1 = Some (JStr (cps ''AB12''))"
    using extract_created_key_priority [of ?r1 "JStr (cps ''AB12'')"] a1 by blast
  have a2: "strategy_success_map (body ?r2) = None
      \<and> strategy_first_element (body ?r2) = Some (JStr (cps ''CD34''))"
    by (simp add: strategy_success_map_def strategy_first_element_def truthy_field_def cps_def)
  have 2: "extract_created_key ?r2 = Some (JStr (cps ''CD34''))"
    using extract_created_key_priority [of ?r2 "JStr (cps ''CD34'')"] a2 by blast
  have split3: "cps ''/users/1/items/EF56'' = cps ''/users/1'' @ cps ''/items/'' @ cps ''EF56''"
    by (simp add: cps_def)
  have a3: "strategy_success_map (body ?r3) = None \<and> strategy_first_element (body ?r3) = None
      \<and> location_header (headers ?r3) = Some (cps ''/users/1'' @ cps ''/items/'' @ cps ''EF56'')
      \<and> \<not> occurs (cps ''/items/'') (tl (cps ''/items/'' @ cps ''EF56''))"
    by (simp add: strategy_success_map_def strategy_first_element_def location_header_def
        contains_occurs [symmetric] cps_def)
  have seg: "47 \<notin> set (cps ''EF56'')" by (simp add: cps_def)
  have 3: "extract_created_key ?r3 = Some (JStr (strip (cps ''EF56'')))
      \<and> trailing_segment (cps ''/users/1'' @ cps ''/items/'' @ cps ''EF56'') = cps ''EF56''"
    using extract_created_key_priority
      [of ?r3 JNull "cps ''/users/1''" "cps ''EF56''"] a3 seg by blast
  have st: "strip (cps ''EF56'') = cps ''EF56''"
    by (simp add: strip_def is_space_def cps_def)
  have a4: "strategy_success_map (body ?r4) = None \<and> strategy_first_element (body ?r4) = None
      \<and> location_header (headers ?r4) = None"
    by (simp add: strategy_success_map_def strategy_first_element_def location_header_def cps_def)
  have 4: "extract_created_key ?r4 = None"
    using extract_created_key_priority [of ?r4] a4 by blast
  show ?thesis
    using 1 2 3 4 by (simp add: split3 [symmetric] st)
qed

text \<open>
  The location header is not cut to its trailing path segment: of
  \<open>/users/1/items/ABC/children\<close> the function returns \<open>ABC/children\<close>, where the trailing
  path segment is \<open>children\<close>; and of \<open>/users/1/items/\<close> it returns the empty string, not
  nothing.
\<close>

theorem extract_created_key_location_counterexample:
  "extract_created_key \<lparr>status_code = 200, body = None,
       headers = (\<lambda>h. if h = cps ''Location'' then Some (cps ''/users/1/items/ABC/children'') else None),
       resp_text = []\<rparr> = Some (JStr (cps ''ABC/children''))
   \<and> trailing_segment (cps ''/users/1/items/ABC/children'') = cps ''children''
   \<and> extract_created_key \<lparr>status_code = 200, body = None,
       headers = (\<lambda>h. if h = cps ''Location'' then Some (cps ''/users/1/items/'') else None),
       resp_text = []\<rparr> = Some (JStr [])"
  by (simp add: extract_created_key_def from_list_def from_location_def header_or_def
      rsplit_last_def strip_def is_space_def trailing_segment_def cps_def)

section \<open>Fingerprints and triples\<close>

lemma hash_text_triple: "triple h1 = triple h2 \<Longrightarrow> hash_text h1 = hash_text h2"
  by (simp add: triple_def hash_text_def)

lemma sep_split:
  "x \<notin> set a \<Longrightarrow> x \<notin> set a' \<Longrightarrow> a @ x # b = a' @ x # b' \<Longrightarrow> a = a' \<and> b = b'"
proof (induction a arbitrary: a')
  case Nil
  then show ?case by (cases a') auto
next
  case (Cons c a)
  then show ?case by (cases a') auto
qed

lemma hash_text_inj:
  assumes "sep_free h1" "sep_free h2" "hash_text h1 = hash_text h2"
  shows "triple h1 = triple h2"
proof -
  have t: "124 \<notin> set (h_text h1)" "124 \<notin> set (h_text h2)"
    and n: "124 \<notin> set (or_empty (h_note h1))" "124 \<notin> set (or_empty (h_note h2))"
    using assms(1,2) by (simp_all add: sep_free_def)
  have bar: "cps ''|'' = [124]" by (simp add: cps_def)
  have e: "h_text h1 @ 124 # (or_empty (h_note h1) @ 124 # or_empty (h_location h1))
      = h_text h2 @ 124 # (or_empty (h_note h2) @ 124 # or_empty (h_location h2))"
    using assms(3) unfolding hash_text_def bar by simp
  have a: "h_text h1 = h_text h2
      \<and> or_empty (h_note h1) @ 124 # or_empty (h_location h1)
        = or_empty (h_note h2) @ 124 # or_empty (h_location h2)"
    by (rule sep_split [OF t e])
  have "or_empty (h_note h1) = or_empty (h_note h2)
      \<and> or_empty (h_location h1) = or_empty (h_location h2)"
    using a by (intro sep_split [OF n]) (rule conjunct2)
  with a show ?thesis by (simp add: triple_def)
qed

text \<open>
  C8, as the code has it. Highlights with equal (text, note-or-empty, location-or-empty)
  triples have equal fingerprints. Equal fingerprints give equal triples when neither
  text nor note of either highlight holds the separator \<open>|\<close> and the digest does not
  collide on the two joined strings.
\<close>

theorem highlight_hash_triple:
  "(triple h1 = triple h2 \<longrightarrow> highlight_hash md5 h1 = highlight_hash md5 h2)
   \<and> (sep_free h1 \<and> sep_free h2
        \<and> (md5 (hash_text h1) = md5 (hash_text h2) \<longrightarrow> hash_text h1 = hash_text h2)
      \<longrightarrow> (highlight_hash md5 h1 = highlight_hash md5 h2) = (triple h1 = triple h2))"
proof (intro conjI impI)
  assume "triple h1 = triple h2"
  then have "hash_text h1 = hash_text h2" by (rule hash_text_triple)
  then show "highlight_hash md5 h1 = highlight_hash md5 h2"
    by (simp add: highlight_hash_def)
next
  assume a: "sep_free h1 \<and> sep_free h2
        \<and> (md5 (hash_text h1) = md5 (hash_text h2) \<longrightarrow> hash_text h1 = hash_text h2)"
  show "(highlight_hash md5 h1 = highlight_hash md5 h2) = (triple h1 = triple h2)"
  proof
    assume "highlight_hash md5 h1 = highlight_hash md5 h2"
    with a have "hash_text h1 = hash_text h2" by (simp add: highlight_hash_def)
    with a show "triple h1 = triple h2" by (intro hash_text_inj) simp_all
  next
    assume "triple h1 = triple h2"
    then have "hash_text h1 = hash_text h2" by (rule hash_text_triple)
    then show "highlight_hash md5 h1 = highlight_hash md5 h2"
      by (simp add: highlight_hash_def)
  qed
qed

theorem highlight_hash_triple_witness:
  "sep_free \<lparr>h_text = cps ''Focus'', h_note = None, h_location = Some (cps ''120'')\<rparr>
   \<and> sep_free \<lparr>h_text = cps ''Focus'', h_note = Some [], h_location = Some (cps ''120'')\<rparr>
   \<and> highlight_hash (\<lambda>x. x) \<lparr>h_text = cps ''Focus'', h_note = None, h_location = Some (cps ''120'')\<rparr>
     = highlight_hash (\<lambda>x. x) \<lparr>h_text = cps ''Focus'', h_note = Some [], h_location = Some (cps ''120'')\<rparr>
   \<and> triple \<lparr>h_text = cps ''Focus'', h_note = None, h_location = Some (cps ''120'')\<rparr>
     = triple \<lparr>h_text = cps ''Focus'', h_note = Some [], h_location = Some (cps ''120'')\<rparr>"
  using highlight_hash_triple
    [of "\<lparr>h_text = cps ''Focus'', h_note = None, h_location = Some (cps ''120'')\<rparr>"
        "\<lparr>h_text = cps ''Focus'', h_note = Some [], h_location = Some (cps ''120'')\<rparr>"
        "\<lambda>x. x"]
  by (simp add: sep_free_def triple_def or_empty_def cps_def)

text \<open>
  The separator is not escaped: the text \<open>a|b\<close> with the note \<open>c\<close> and the text \<open>a\<close>
  with the note \<open>b|c\<close> are joined to the same string, so whatever the digest is, the two
  highlights have the same fingerprint.
\<close>

theorem highlight_hash_separator_counterexample:
  "(\<forall>md5. highlight_hash md5
        \<lparr>h_text = cps ''a|b'', h_note = Some (cps ''c''), h_location = Some (cps ''12'')\<rparr>
      = highlight_hash md5
        \<lparr>h_text = cps ''a'', h_note = Some (cps ''b|c''), h_location = Some (cps ''12'')\<rparr>)
   \<and> triple \<lparr>h_text = cps ''a|b'', h_note = Some (cps ''c''), h_location = Some (cps ''12'')\<rparr>
     \<noteq> triple \<lparr>h_text = cps ''a'', h_note = Some (cps ''b|c''), h_location = Some (cps ''12'')\<rparr>"
  by (simp add: highlight_hash_def hash_text_def triple_def or_empty_def cps_def)

section \<open>Loading the sent-log\<close>

lemma map_of_dict_set: "map_of (dict_set k v d) = (map_of d)(k \<mapsto> v)"
  by (induction d) (auto simp: fun_eq_iff)

lemma map_of_dict_unpack:
  "distinct (map fst b) \<Longrightarrow> map_of (dict_unpack a b) = map_of a ++ map_of b"
  unfolding dict_unpack_def
proof (induction b arbitrary: a)
  case Nil
  show ?case by simp
next
  case (Cons kv b)
  obtain k v where kv: "kv = (k, v)" by (cases kv)
  from Cons.prems kv have none: "map_of b k = None"
    by (simp add: map_of_eq_None_iff)
  from Cons.prems have d: "distinct (map fst b)" by simp
  have "map_of (foldl (\<lambda>acc kv. dict_set (fst kv) (snd kv) acc) (dict_set k v a) b) x
      = (map_of a ++ map_of ((k, v) # b)) x" for x
    using none by (simp add: Cons.IH [OF d] map_of_dict_set map_add_def split: option.splits)
  then show ?case by (simp add: kv fun_eq_iff del: map_of.simps)
qed

text \<open>Where the load succeeds: a primary file that is missing, unreadable or holds an
  object. The fallback file never makes it fail, and on a key that both files have the
  primary file's value stands.\<close>

lemma load_sent_log_object:
  "primary = Missing \<or> primary = Unreadable \<or> (\<exists>d. primary = Parsed (JObj d))
   \<Longrightarrow> \<exists>d. load_sent_log primary fallback = Inr d"
  by (auto simp: load_sent_log_def load_primary_def load_fallback_def
      split: file_read.splits json.splits)

lemma load_sent_log_precedence:
  "distinct (map fst p) \<Longrightarrow> load_sent_log (Parsed (JObj p)) (Parsed (JObj f)) = Inr d
   \<Longrightarrow> map_of p k = Some v \<Longrightarrow> map_of d k = Some v"
  by (auto simp: load_sent_log_def load_primary_def load_fallback_def setdefault_def
      map_of_dict_unpack split: option.splits)

text \<open>
  C7. Journal load is total and non-fatal. The code does not keep this for a primary
  file that holds well-formed JSON that is not an object, the empty list \<open>[]\<close> for one:
  \<open>json.loads\<close> returns a list, nothing is raised inside either \<open>try\<close>, and
  \<open>data.setdefault\<close> raises \<open>AttributeError\<close> out of \<open>load_sent_log\<close>.
\<close>

theorem load_sent_log_list_raises:
  "load_sent_log (Parsed (JArr [])) Missing = Inl AttributeError
   \<and> load_sent_log (Parsed (JArr [])) (Parsed (JObj [])) = Inl AttributeError"
  by (simp add: load_sent_log_def load_primary_def load_fallback_def)

section \<open>Committing a title\<close>

lemma save_sent_log_persists:
  assumes "\<forall>tr. fs E tr (WriteFallback log)"
  shows "\<exists>evs. save_sent_log E log s = (Inr (), s\<lparr>trace := trace s @ evs\<rparr>) \<and> persisted log evs"
proof -
  let ?t1 = "trace s @ [Fs WriteTest True]"
  let ?t2 = "?t1 @ [Fs UnlinkTest True]"
  consider (a) "\<not> fs E (trace s) WriteTest"
    | (b) "fs E (trace s) WriteTest" "\<not> fs E ?t1 UnlinkTest"
    | (c) "fs E (trace s) WriteTest" "fs E ?t1 UnlinkTest" "\<not> fs E ?t2 (WritePrimary log)"
    | (d) "fs E (trace s) WriteTest" "fs E ?t1 UnlinkTest" "fs E ?t2 (WritePrimary log)"
    by blast
  then show ?thesis
  proof cases
    case a
    have "save_sent_log E log s = (Inr (), s\<lparr>trace := trace s @
        [Fs WriteTest False, Fs (WriteFallback log) True, Print SavedLocally]\<rparr>)"
      using a assms
      by (simp add: save_sent_log_def save_local_def bnd_def file_op_def emit_def throw_def ret_def)
    moreover have "persisted log [Fs WriteTest False, Fs (WriteFallback log) True, Print SavedLocally]"
      unfolding persisted_def by (intro exI [of _ "[]"] disjI2 exI [of _ WriteTest]) simp
    ultimately show ?thesis by blast
  next
    case b
    have "save_sent_log E log s = (Inr (), s\<lparr>trace := trace s @
        [Fs WriteTest True, Fs UnlinkTest False, Fs (WriteFallback log) True, Print SavedLocally]\<rparr>)"
      using b assms
      by (simp add: save_sent_log_def save_local_def bnd_def file_op_def emit_def throw_def ret_def)
    moreover have "persisted log
        [Fs WriteTest True, Fs UnlinkTest False, Fs (WriteFallback log) True, Print SavedLocally]"
      unfolding persisted_def
      by (intro exI [of _ "[Fs WriteTest True]"] disjI2 exI [of _ UnlinkTest]) simp
    ultimately show ?thesis by blast
  next
    case c
    have "save_sent_log E log s = (Inr (), s\<lparr>trace := trace s @
        [Fs WriteTest True, Fs UnlinkTest True, Fs (WritePrimary log) False,
         Fs (WriteFallback log) True, Print SavedLocally]\<rparr>)"
      using c assms
      by (simp add: save_sent_log_def save_local_def bnd_def file_op_def emit_def throw_def ret_def)
    moreover have "persisted log
        [Fs WriteTest True, Fs UnlinkTest True, Fs (WritePrimary log) False,
         Fs (WriteFallback log) True, Print SavedLocally]"
      unfolding persisted_def
      by (intro exI [of _ "[Fs WriteTest True, Fs UnlinkTest True]"] disjI2
            exI [of _ "WritePrimary log"]) simp
    ultimately show ?thesis by blast
  next
    case d
    have "save_sent_log E log s = (Inr (), s\<lparr>trace := trace s @
        [Fs WriteTest True, Fs UnlinkTest True, Fs (WritePrimary log) True]\<rparr>)"
      using d
      by (simp add: save_sent_log_def save_local_def bnd_def file_op_def emit_def throw_def ret_def)
    moreover have "persisted log [Fs WriteTest True, Fs UnlinkTest True, Fs (WritePrimary log) True]"
      unfolding persisted_def
      by (intro exI [of _ "[Fs WriteTest True, Fs UnlinkTest True]"] disjI1) simp
    ultimately show ?thesis by blast
  qed
qed

lemma mark_done_result:
  assumes "map_of (sent_log s) (cps ''_done_titles'') = Some (JArr xs)"
    and "set (done_set s) \<subseteq> set xs"
  shows "\<exists>s1 xs'. mark_done norm_t s = (Inr (), s1) \<and> trace s1 = trace s
      \<and> JStr norm_t \<in> set (done_set s1)
      \<and> map_of (sent_log s1) (cps ''_done_titles'') = Some (JArr xs') \<and> JStr norm_t \<in> set xs'"
proof (cases "JStr norm_t \<in> set (done_set s)")
  case True
  with assms show ?thesis
    by (intro exI [of _ s] exI [of _ xs]) (auto simp: mark_done_def)
next
  case False
  with assms show ?thesis
    by (intro exI [of _ "s\<lparr>sent_log := dict_set (cps ''_done_titles'') (JArr (xs @ [JStr norm_t])) (sent_log s),
                     done_set := done_set s @ [JStr norm_t]\<rparr>"] exI [of _ "xs @ [JStr norm_t]"])
      (simp add: mark_done_def map_of_dict_set)
qed




section \<open>The highlights of a document\<close>

lemma net_requests_append: "net_requests (a @ b) = net_requests a @ net_requests b"
  by (induction a rule: net_requests.induct) simp_all

lemma create_note_live:
  assumes "\<not> DRY_RUN C" "net E (trace s) (PostItems (note_payload k html)) = Some r"
  shows "create_note_for_item C E k html False s
     = (Inr (), s\<lparr>trace := trace s @ Net (PostItems (note_payload k html))
          # (if status_code r \<noteq> 200 \<and> status_code r \<noteq> 201
             then [Print (FailedAddNote (status_code r))] else [])\<rparr>)"
  using assms
  by (simp add: create_note_for_item_def safe_post_def http_def bnd_def emit_def ret_def)

lemma highlight_loop_live:
  assumes "\<not> DRY_RUN C" "\<forall>tr p. net E tr (PostItems p) \<noteq> None"
    and "map_of (sent_log s) title = Some (JArr xs)"
  shows "\<exists>s'. highlight_loop C E item_key title already hs cnt s
        = (Inr (cnt + int (length (filter (\<lambda>h. fingerprint E h \<notin> set already) hs))), s')
      \<and> net_requests (trace s') = net_requests (trace s)
          @ map (note_request item_key) (filter (\<lambda>h. fingerprint E h \<notin> set already) hs)
      \<and> map_of (sent_log s') title
          = Some (JArr (xs @ map (fingerprint E) (filter (\<lambda>h. fingerprint E h \<notin> set already) hs)))"
  using assms(3)
proof (induction hs arbitrary: s cnt xs)
  case Nil
  then show ?case by (simp add: ret_def)
next
  case (Cons h hs)
  show ?case
  proof (cases "fingerprint E h \<in> set already")
    case True
    let ?s1 = "s\<lparr>trace := trace s @ [Print (SkippingDuplicate (take 60 (h_text h)))]\<rparr>"
    have "map_of (sent_log ?s1) title = Some (JArr xs)" using Cons.prems by simp
    from Cons.IH [OF this, of cnt]
    obtain s' where s': "highlight_loop C E item_key title already hs cnt ?s1
        = (Inr (cnt + int (length (filter (\<lambda>h. fingerprint E h \<notin> set already) hs))), s')"
      "net_requests (trace s') = net_requests (trace ?s1)
          @ map (note_request item_key) (filter (\<lambda>h. fingerprint E h \<notin> set already) hs)"
      "map_of (sent_log s') title
          = Some (JArr (xs @ map (fingerprint E) (filter (\<lambda>h. fingerprint E h \<notin> set already) hs)))"
      by blast
    have "highlight_loop C E item_key title already (h # hs) cnt s
        = highlight_loop C E item_key title already hs cnt ?s1"
      using True by (simp add: fingerprint_def bnd_def emit_def)
    with s' True show ?thesis
      by (intro exI [of _ s']) (simp add: net_requests_append)
  next
    case False
    let ?req = "PostItems (note_payload item_key (note_html_from_highlight h))"
    from assms(2) obtain r where r: "net E (trace s) ?req = Some r" by blast
    let ?s1 = "s\<lparr>trace := trace s @ Net ?req
          # (if status_code r \<noteq> 200 \<and> status_code r \<noteq> 201
             then [Print (FailedAddNote (status_code r))] else [])\<rparr>"
    let ?s2 = "?s1\<lparr>sent_log := dict_set title (JArr (xs @ [fingerprint E h])) (sent_log ?s1)\<rparr>"
    have c: "create_note_for_item C E item_key (note_html_from_highlight h) False s = (Inr (), ?s1)"
      using assms(1) r by (rule create_note_live)
    have a: "log_append title (fingerprint E h) ?s1 = (Inr (), ?s2)"
      using Cons.prems by (simp add: log_append_def)
    have "map_of (sent_log ?s2) title = Some (JArr (xs @ [fingerprint E h]))"
      by (simp add: map_of_dict_set)
    from Cons.IH [OF this, of "cnt + 1"]
    obtain s' where s': "highlight_loop C E item_key title already hs (cnt + 1) ?s2
        = (Inr (cnt + 1 + int (length (filter (\<lambda>h. fingerprint E h \<notin> set already) hs))), s')"
      "net_requests (trace s') = net_requests (trace ?s2)
          @ map (note_request item_key) (filter (\<lambda>h. fingerprint E h \<notin> set already) hs)"
      "map_of (sent_log s') title = Some (JArr ((xs @ [fingerprint E h])
          @ map (fingerprint E) (filter (\<lambda>h. fingerprint E h \<notin> set already) hs)))"
      by blast
    have "highlight_loop C E item_key title already (h # hs) cnt s
        = highlight_loop C E item_key title already hs (cnt + 1) ?s2"
      using False assms(1) c a by (simp add: fingerprint_def bnd_def)
    with s' False show ?thesis
      by (intro exI [of _ s']) (simp add: net_requests_append note_request_def)
  qed
qed

lemma map_of_setdefault:
  "map_of (setdefault k v d) k = Some (case map_of d k of Some x \<Rightarrow> x | None \<Rightarrow> v)"
  by (cases "map_of d k") (simp_all add: setdefault_def map_add_def)

lemma process_highlights_live:
  assumes "\<not> DRY_RUN C" "\<forall>tr p. net E tr (PostItems p) \<noteq> None"
    and "sent_before (sent_log s) title = Some xs"
  shows "\<exists>s'. process_highlights C E item_key title hs s
        = (Inr (int (length (filter (\<lambda>h. fingerprint E h \<notin> set xs) hs))), s')
      \<and> net_requests (trace s') = net_requests (trace s)
          @ map (note_request item_key) (filter (\<lambda>h. fingerprint E h \<notin> set xs) hs)
      \<and> map_of (sent_log s') title
          = Some (JArr (xs @ map (fingerprint E) (filter (\<lambda>h. fingerprint E h \<notin> set xs) hs)))"
proof -
  let ?s1 = "s\<lparr>sent_log := setdefault title (JArr []) (sent_log s)\<rparr>"
  from assms(3) have m: "map_of (sent_log ?s1) title = Some (JArr xs)" and h: "list_all hashable xs"
    by (auto simp: sent_before_def map_of_setdefault split: option.splits json.splits if_splits)
  from highlight_loop_live [OF assms(1,2) m, of item_key xs hs 0]
  obtain s' where s': "highlight_loop C E item_key title xs hs 0 ?s1
        = (Inr (0 + int (length (filter (\<lambda>h. fingerprint E h \<notin> set xs) hs))), s')"
      "net_requests (trace s') = net_requests (trace ?s1)
          @ map (note_request item_key) (filter (\<lambda>h. fingerprint E h \<notin> set xs) hs)"
      "map_of (sent_log s') title
          = Some (JArr (xs @ map (fingerprint E) (filter (\<lambda>h. fingerprint E h \<notin> set xs) hs)))"
    by blast
  have "process_highlights C E item_key title hs s = highlight_loop C E item_key title xs hs 0 ?s1"
    using m h
    by (simp add: process_highlights_def bnd_def get_sent_log_def put_sent_log_def lift_def
        py_set_def py_iter_def ebind_def)
  with s' show ?thesis by (intro exI [of _ s']) simp
qed



text \<open>
  C1. A fingerprint is added to the list of its title if and only if the creation call
  was attempted and did not fail. The code does not keep this: \<open>create_note_for_item\<close>
  prints a failure status and returns nothing, and the loop appends the fingerprint
  after every call that returns. Here the one call is answered with status 500, and the
  fingerprint is in the sent-log all the same, counted as created.
\<close>

theorem process_highlights_marks_failed_sent:
  "fst (process_highlights module_config
        (example_env (\<lambda>tr r. Some (plain_response 500 JNull)) (\<lambda>tr op. True))
        (JStr (cps ''K1'')) (cps ''T'')
        [\<lparr>h_text = cps ''a'', h_note = None, h_location = None\<rparr>] fresh_state) = Inr 1
   \<and> map_of (sent_log (snd (process_highlights module_config
        (example_env (\<lambda>tr r. Some (plain_response 500 JNull)) (\<lambda>tr op. True))
        (JStr (cps ''K1'')) (cps ''T'')
        [\<lparr>h_text = cps ''a'', h_note = None, h_location = None\<rparr>] fresh_state))) (cps ''T'')
     = Some (JArr [JStr (cps ''a||'')])
   \<and> trace (snd (process_highlights module_config
        (example_env (\<lambda>tr r. Some (plain_response 500 JNull)) (\<lambda>tr op. True))
        (JStr (cps ''K1'')) (cps ''T'')
        [\<lparr>h_text = cps ''a'', h_note = None, h_location = None\<rparr>] fresh_state))
     = [Net (note_request (JStr (cps ''K1'')) \<lparr>h_text = cps ''a'', h_note = None, h_location = None\<rparr>),
        Print (FailedAddNote 500)]"
  by (simp add: process_highlights_def bnd_def get_sent_log_def put_sent_log_def lift_def
      py_set_def py_iter_def ebind_def setdefault_def create_note_for_item_def safe_post_def
      http_def emit_def ret_def log_append_def highlight_hash_def hash_text_def or_empty_def
      module_config_def example_env_def fresh_state_def plain_response_def note_request_def
      cps_def)

section \<open>What a run adds to the trace\<close>

named_theorems emits_intros

lemma emits_ret [emits_intros]: "emits P (ret x)"
  by (simp add: emits_def ret_def)

lemma emits_throw [emits_intros]: "emits P (throw e)"
  by (simp add: emits_def throw_def)

lemma emits_lift [emits_intros]: "emits P (lift r)"
  by (simp add: emits_def lift_def)

lemma emits_get_sent_log [emits_intros]: "emits P get_sent_log"
  by (simp add: emits_def get_sent_log_def)

lemma emits_put_sent_log [emits_intros]: "emits P (put_sent_log d)"
  by (simp add: emits_def put_sent_log_def)

lemma emits_emit: "P e \<Longrightarrow> emits P (emit e)"
  by (simp add: emits_def emit_def)

lemma emits_http: "P (Net req) \<Longrightarrow> emits P (http E req)"
  by (simp add: emits_def http_def)

lemma emits_file_op: "\<forall>b. P (Fs op b) \<Longrightarrow> emits P (file_op E op)"
  by (simp add: emits_def file_op_def)

lemma emits_bnd [emits_intros]:
  assumes "emits P m" "\<And>x. emits P (f x)"
  shows "emits P (bnd m f)"
  unfolding emits_def
proof
  fix s
  from assms(1) obtain e1 where e1: "trace (snd (m s)) = trace s @ e1" "list_all P e1"
    unfolding emits_def by blast
  show "\<exists>evs. trace (snd (bnd m f s)) = trace s @ evs \<and> list_all P evs"
  proof (cases "m s")
    case (Pair r s1)
    show ?thesis
    proof (cases r)
      case (Inl e)
      with Pair e1 show ?thesis by (auto simp: bnd_def)
    next
      case (Inr x)
      from assms(2) [of x] obtain e2 where e2: "trace (snd (f x s1)) = trace s1 @ e2" "list_all P e2"
        unfolding emits_def by blast
      with Pair Inr e1 show ?thesis
        by (intro exI [of _ "e1 @ e2"]) (simp add: bnd_def)
    qed
  qed
qed

lemma emits_if [emits_intros]:
  "(c \<Longrightarrow> emits P a) \<Longrightarrow> (\<not> c \<Longrightarrow> emits P b) \<Longrightarrow> emits P (if c then a else b)"
  by simp

lemma emits_case_option [emits_intros]:
  "(x = None \<Longrightarrow> emits P a) \<Longrightarrow> (\<And>y. x = Some y \<Longrightarrow> emits P (b y))
   \<Longrightarrow> emits P (case x of None \<Rightarrow> a | Some y \<Rightarrow> b y)"
  by (cases x) simp_all

lemma emits_print [emits_intros]: "permits P C \<Longrightarrow> emits P (emit (Print m))"
  by (simp add: emits_emit permits_def)

lemma emits_sleep [emits_intros]: "permits P C \<Longrightarrow> emits P (emit (Sleep n))"
  by (simp add: emits_emit permits_def)

lemma emits_read [emits_intros]: "permits P C \<Longrightarrow> \<not> is_write req \<Longrightarrow> emits P (http E req)"
  by (simp add: emits_http permits_def)

lemma emits_safe_post [emits_intros]: "permits P C \<Longrightarrow> emits P (safe_post C E req)"
  unfolding safe_post_def
  by (cases "DRY_RUN C") (auto intro!: emits_bnd emits_ret emits_emit emits_http simp: permits_def)

lemma emits_safe_put [emits_intros]: "permits P C \<Longrightarrow> emits P (safe_put C E req)"
  unfolding safe_put_def
  by (cases "DRY_RUN C") (auto intro!: emits_bnd emits_ret emits_emit emits_http simp: permits_def)

lemma emits_collection_search [emits_intros]: "permits P C \<Longrightarrow> emits P (collection_search E name)"
  unfolding collection_search_def by (intro emits_intros) simp_all

lemma emits_get_or_create_collection [emits_intros]:
  "permits P C \<Longrightarrow> emits P (get_or_create_collection C E name dry_run)"
  unfolding get_or_create_collection_def by (intro emits_intros) simp_all

lemma emits_ensure_item_in_collection [emits_intros]:
  "permits P C \<Longrightarrow> emits P (ensure_item_in_collection C E item_key collection_key dry_run)"
  unfolding ensure_item_in_collection_def
  by (intro emits_intros) (auto intro!: emits_intros split: json.splits)

lemma emits_cache_store [emits_intros]: "emits P (cache_store t k)"
  by (simp add: emits_def cache_store_def split: option.splits json.splits)

lemma emits_match_and_cache [emits_intros]: "emits P (match_and_cache E title author r)"
  unfolding match_and_cache_def by (intro emits_intros)

lemma emits_search_item_by_title [emits_intros]:
  "permits P C \<Longrightarrow> emits P (search_item_by_title E title author)"
  unfolding search_item_by_title_def by (intro emits_intros) simp_all

lemma emits_fetch_recent_and_match [emits_intros]:
  "permits P C \<Longrightarrow> emits P (fetch_recent_and_match E title author lmv)"
  unfolding fetch_recent_and_match_def by (intro emits_intros) simp_all

lemma emits_recover_key [emits_intros]:
  "permits P C \<Longrightarrow> emits P (recover_key E title author lmv attempts)"
  by (induction attempts) (auto intro!: emits_intros)

lemma emits_find_or_create_book_item [emits_intros]:
  "permits P C \<Longrightarrow> emits P (find_or_create_book_item C E title author collection_key dry_run)"
  unfolding find_or_create_book_item_def by (intro emits_intros) simp_all

lemma emits_create_note_for_item [emits_intros]:
  "permits P C \<Longrightarrow> emits P (create_note_for_item C E item_key html dry_run)"
  unfolding create_note_for_item_def by (intro emits_intros) simp_all

lemma emits_log_append [emits_intros]: "emits P (log_append t v)"
  by (simp add: emits_def log_append_def split: option.splits json.splits)

lemma emits_highlight_loop [emits_intros]:
  "permits P C \<Longrightarrow> emits P (highlight_loop C E item_key title already hs cnt)"
  by (induction hs arbitrary: cnt) (auto intro!: emits_intros)

lemma emits_process_highlights [emits_intros]:
  "permits P C \<Longrightarrow> emits P (process_highlights C E item_key title hs)"
  unfolding process_highlights_def by (intro emits_intros) simp_all

lemma emits_mark_done [emits_intros]: "emits P (mark_done t)"
  by (simp add: emits_def mark_done_def split: option.splits json.splits)

lemma emits_save_sent_log: "\<forall>e. P e \<Longrightarrow> emits P (save_sent_log E log)"
  unfolding save_sent_log_def save_local_def
  by (intro emits_bnd emits_if emits_ret emits_throw emits_emit emits_file_op) simp_all

lemma emits_commit_title [emits_intros]: "permits P C \<Longrightarrow> emits P (commit_title C E t n)"
  unfolding commit_title_def
  by (cases "DRY_RUN C") (auto intro!: emits_intros emits_save_sent_log simp: permits_def)

lemma emits_count_processed [emits_intros]: "permits P C \<Longrightarrow> emits P (count_processed C)"
  by (simp add: emits_def count_processed_def permits_def)

lemma emits_process_title [emits_intros]:
  "permits P C \<Longrightarrow> emits P (process_title C E collection_key title author hs)"
  unfolding process_title_def by (intro emits_intros) simp_all

lemma emits_loop_body [emits_intros]:
  assumes "permits P C"
  shows "emits P (loop_body C E collection_key doc)"
proof -
  obtain t a hs where doc: "doc = (t, a, hs)" by (cases doc)
  have p: "emits P (process_title C E collection_key (or_empty t) a hs)"
    using assms by (rule emits_process_title)
  have "\<exists>evs. trace (snd (loop_body C E collection_key doc s)) = trace s @ evs \<and> list_all P evs" for s
  proof -
    from p obtain evs where "trace (snd (process_title C E collection_key (or_empty t) a hs
        (s\<lparr>matched := matched s + 1\<rparr>))) = trace (s\<lparr>matched := matched s + 1\<rparr>) @ evs" "list_all P evs"
      unfolding emits_def by blast
    then show ?thesis
      using assms by (auto simp: loop_body_def doc ret_def permits_def)
  qed
  then show ?thesis unfolding emits_def by blast
qed

lemma emits_main_loop [emits_intros]:
  "permits P C \<Longrightarrow> emits P (main_loop C E collection_key docs)"
  by (induction docs) (auto intro!: emits_intros)

lemma emits_confirm [emits_intros]: "permits P C \<Longrightarrow> emits P (confirm_live_or_abort E)"
  unfolding confirm_live_or_abort_def by (intro emits_intros) simp_all

lemma emits_start_loop [emits_intros]: "emits P (start_loop log d)"
  by (simp add: emits_def start_loop_def)

lemma emits_print_done [emits_intros]: "permits P C \<Longrightarrow> emits P print_done"
  by (simp add: emits_def print_done_def permits_def)

lemma emits_main: "permits P C \<Longrightarrow> emits P (main C E docs)"
  unfolding main_def by (intro emits_intros) simp_all

lemma permits_read_only: "DRY_RUN C \<Longrightarrow> permits read_only C"
  by (simp add: permits_def)




section \<open>Skipping what is done\<close>

lemma permits_all: "permits (\<lambda>e. True) C"
  by (simp add: permits_def)

lemma process_title_starts:
  "\<exists>evs. trace (snd (process_title C E ck title author hs s))
      = trace s @ Print (Processing title author (length hs)) # evs"
proof -
  let ?rest = "bnd (find_or_create_book_item C E title author ck (DRY_RUN C)) (\<lambda>item_key.
       if \<not> truthy item_key then bnd (emit (Print (SkippingNotes (DRY_RUN C)))) (\<lambda>u. ret False)
       else
         bnd (if truthy ck \<and> \<not> DRY_RUN C
              then ensure_item_in_collection C E item_key ck (DRY_RUN C)
              else ret ()) (\<lambda>u.
         bnd (process_highlights C E item_key title hs) (\<lambda>created_count.
         bnd (commit_title C E (normalize_title (str_lower E) title) created_count) (\<lambda>u.
           count_processed C))))"
  let ?s1 = "s\<lparr>trace := trace s @ [Print (Processing title author (length hs))]\<rparr>"
  have "emits (\<lambda>e. True) ?rest"
    by (intro emits_intros) (simp_all add: permits_all)
  then obtain evs where "trace (snd (?rest ?s1)) = trace ?s1 @ evs"
    unfolding emits_def by blast
  moreover have "process_title C E ck title author hs s = ?rest ?s1"
    by (simp add: process_title_def bnd_def emit_def)
  ultimately show ?thesis by simp
qed

text \<open>
  C6. In a live run with resume enabled, a document whose normalized title is in
  \<open>done_set\<close> is passed over: the loop body counts it as matched, prints that it skips
  it, and does nothing else, so the resolver is not called and no call goes to the
  network. In every other case a document with a title that passes the filter is
  processed: the loop body is \<open>process_title\<close>, which starts by printing the title and
  calls the resolver.
\<close>

theorem resume_skip:
  "(RESUME_ENABLED C \<and> \<not> DRY_RUN C \<and> title \<noteq> [] \<and> title_matches_filters C E title
      \<and> JStr (normalize_title (str_lower E) title) \<in> set (done_set s)
     \<longrightarrow> loop_body C E collection_key (Some title, author, hs) s
         = (Inr False, s\<lparr>matched := matched s + 1,
              trace := trace s @ [Print (SkippingCompleted title)]\<rparr>))
   \<and> (title \<noteq> [] \<and> title_matches_filters C E title
      \<and> \<not> (RESUME_ENABLED C \<and> \<not> DRY_RUN C
           \<and> JStr (normalize_title (str_lower E) title) \<in> set (done_set s))
     \<longrightarrow> loop_body C E collection_key (Some title, author, hs) s
           = process_title C E collection_key title author hs (s\<lparr>matched := matched s + 1\<rparr>)
         \<and> (\<exists>evs. trace (snd (loop_body C E collection_key (Some title, author, hs) s))
               = trace s @ Print (Processing title author (length hs)) # evs))"
proof (intro conjI impI)
  assume "RESUME_ENABLED C \<and> \<not> DRY_RUN C \<and> title \<noteq> [] \<and> title_matches_filters C E title
      \<and> JStr (normalize_title (str_lower E) title) \<in> set (done_set s)"
  then show "loop_body C E collection_key (Some title, author, hs) s
         = (Inr False, s\<lparr>matched := matched s + 1,
              trace := trace s @ [Print (SkippingCompleted title)]\<rparr>)"
    by (simp add: loop_body_def or_empty_def)
next
  assume a: "title \<noteq> [] \<and> title_matches_filters C E title
      \<and> \<not> (RESUME_ENABLED C \<and> \<not> DRY_RUN C
           \<and> JStr (normalize_title (str_lower E) title) \<in> set (done_set s))"
  then show eq: "loop_body C E collection_key (Some title, author, hs) s
           = process_title C E collection_key title author hs (s\<lparr>matched := matched s + 1\<rparr>)"
    by (auto simp: loop_body_def or_empty_def)
  from process_title_starts [of C E collection_key title author hs "s\<lparr>matched := matched s + 1\<rparr>"]
  show "\<exists>evs. trace (snd (loop_body C E collection_key (Some title, author, hs) s))
               = trace s @ Print (Processing title author (length hs)) # evs"
    by (simp add: eq)
qed

theorem resume_skip_witness:
  "loop_body module_config (example_env (\<lambda>tr r. None) (\<lambda>tr op. False)) JNull
       (Some (cps ''Deep Work''), None, [\<lparr>h_text = cps ''a'', h_note = None, h_location = None\<rparr>])
       (fresh_state\<lparr>done_set := [JStr (cps ''deep work'')]\<rparr>)
     = (Inr False, fresh_state\<lparr>done_set := [JStr (cps ''deep work'')], matched := 1,
          trace := [Print (SkippingCompleted (cps ''Deep Work''))]\<rparr>)
   \<and> (\<exists>evs. trace (snd (loop_body dry_config (example_env (\<lambda>tr r. None) (\<lambda>tr op. False)) JNull
       (Some (cps ''Deep Work''), None, [\<lparr>h_text = cps ''a'', h_note = None, h_location = None\<rparr>])
       (fresh_state\<lparr>done_set := [JStr (cps ''deep work'')]\<rparr>)))
     = Print (Processing (cps ''Deep Work'') None 1) # evs)"
proof -
  let ?E = "example_env (\<lambda>tr r. None) (\<lambda>tr op. False)"
  let ?s = "fresh_state\<lparr>done_set := [JStr (cps ''deep work'')]\<rparr>"
  let ?hs = "[\<lparr>h_text = cps ''a'', h_note = None, h_location = None\<rparr>]"
  have n: "normalize_title (str_lower ?E) (cps ''Deep Work'') = cps ''deep work''"
    by (simp add: normalize_title_def example_env_def ascii_lower_def translate_del_def
        is_punct_def split_ws_def is_space_def cps_def)
  have t: "cps ''Deep Work'' \<noteq> []" by (simp add: cps_def)
  have f: "title_matches_filters module_config ?E (cps ''Deep Work'')"
    "title_matches_filters dry_config ?E (cps ''Deep Work'')"
    by (simp_all add: title_matches_filters_def module_config_def dry_config_def)
  have c: "RESUME_ENABLED module_config \<and> \<not> DRY_RUN module_config" "DRY_RUN dry_config"
    by (simp_all add: module_config_def dry_config_def)
  have d: "JStr (cps ''deep work'') \<in> set (done_set ?s)" by simp
  have 1: "loop_body module_config ?E JNull (Some (cps ''Deep Work''), None, ?hs) ?s
       = (Inr False, ?s\<lparr>matched := matched ?s + 1,
            trace := trace ?s @ [Print (SkippingCompleted (cps ''Deep Work''))]\<rparr>)"
    using resume_skip [of module_config "cps ''Deep Work''" ?E ?s JNull None ?hs] n t f c d
    by simp
  have h2: "cps ''Deep Work'' \<noteq> [] \<and> title_matches_filters dry_config ?E (cps ''Deep Work'')
      \<and> \<not> (RESUME_ENABLED dry_config \<and> \<not> DRY_RUN dry_config
           \<and> JStr (normalize_title (str_lower ?E) (cps ''Deep Work'')) \<in> set (done_set ?s))"
    using t f c by simp
  note 2 = resume_skip [of dry_config "cps ''Deep Work''" ?E ?s JNull None ?hs,
      THEN conjunct2, THEN mp, OF h2, THEN conjunct2]
  show ?thesis
    using 1 2 by (simp add: fresh_state_def)
qed

section \<open>Recovering the key of a created parent\<close>

lemma normalize_title_Nil: "normalize_title low [] = []"
  by (simp add: normalize_title_def)

lemma match_item_other:
  assumes "other_title low want it"
  shows "match_item low want wa it = Inr None"
proof -
  from assms obtain t where t: "listed_title it = Some (JStr t)" "normalize_title low t \<noteq> want"
    by (auto simp: other_title_def split: option.splits json.splits)
  from t(1) obtain d where d: "it = JObj d"
    by (auto simp: listed_title_def split: json.splits)
  show ?thesis
  proof (cases "map_of d (cps ''data'')")
    case None
    with t d have "(case map_of d (cps ''title'') of Some v \<Rightarrow> v | None \<Rightarrow> JStr []) = JStr t"
      by (simp add: listed_title_def)
    with None d t(2) show ?thesis
      by (cases "t = []")
        (simp_all add: match_item_def py_get_def ebind_def normalize_title_of_def
          normalize_title_Nil)
  next
    case (Some v)
    with t d obtain dd where dd: "v = JObj dd"
      "(case map_of dd (cps ''title'') of Some v \<Rightarrow> v | None \<Rightarrow> JStr []) = JStr t"
      by (auto simp: listed_title_def split: json.splits)
    with Some d t(2) show ?thesis
      by (cases "t = []")
        (simp_all add: match_item_def py_get_def ebind_def normalize_title_of_def
          normalize_title_Nil)
  qed
qed

lemma match_loop_other:
  "list_all (other_title low want) items \<Longrightarrow> match_loop low want wa items = Inr None"
  by (induction items) (simp_all add: match_item_other ebind_def)

lemma match_and_cache_none:
  assumes "no_title_match E title r" "status_code r = 200"
  shows "match_and_cache E title author r s = (Inr JNull, s)"
proof -
  from assms obtain items where "body r = Some (JArr items)"
    "list_all (other_title (str_lower E) (normalize_title (str_lower E) title)) items"
    by (auto simp: no_title_match_def split: option.splits json.splits)
  then show ?thesis
    by (simp add: match_and_cache_def json_of_def py_iter_def ebind_def lift_def bnd_def ret_def
        match_loop_other)
qed

lemma search_item_by_title_none:
  assumes "map_of (sent_log s) (cps ''_items'') = Some (JObj items)"
    and "map_of items (normalize_title (str_lower E) title) = None"
    and "net E (trace s) (SearchItems title) = Some r" "no_title_match E title r"
  shows "search_item_by_title E title author s
     = (Inr JNull, s\<lparr>trace := trace s @ [Net (SearchItems title)]\<rparr>)"
proof (cases "status_code r = 200")
  case True
  have "match_and_cache E title author r (s\<lparr>trace := trace s @ [Net (SearchItems title)]\<rparr>)
      = (Inr JNull, s\<lparr>trace := trace s @ [Net (SearchItems title)]\<rparr>)"
    using assms(4) True by (rule match_and_cache_none)
  with assms True show ?thesis
    by (simp add: search_item_by_title_def get_sent_log_def bnd_def lift_def py_get_def ebind_def
        http_def)
next
  case False
  with assms show ?thesis
    by (simp add: search_item_by_title_def get_sent_log_def bnd_def lift_def py_get_def ebind_def
        http_def ret_def)
qed

lemma fetch_recent_none:
  assumes "net E (trace s) (RecentItems (since_of E lmv)) = Some r" "no_title_match E title r"
  shows "fetch_recent_and_match E title author lmv s
     = (Inr JNull, s\<lparr>trace := trace s @ [Net (RecentItems (since_of E lmv))]\<rparr>)"
proof (cases "status_code r = 200")
  case True
  have "match_and_cache E title author r (s\<lparr>trace := trace s @ [Net (RecentItems (since_of E lmv))]\<rparr>)
      = (Inr JNull, s\<lparr>trace := trace s @ [Net (RecentItems (since_of E lmv))]\<rparr>)"
    using assms(2) True by (rule match_and_cache_none)
  with assms True show ?thesis
    by (simp add: fetch_recent_and_match_def bnd_def http_def)
next
  case False
  with assms show ?thesis
    by (simp add: fetch_recent_and_match_def bnd_def http_def ret_def)
qed

lemma recover_key_none:
  assumes "\<forall>tr. \<exists>r. net E tr (RecentItems (since_of E lmv)) = Some r \<and> no_title_match E title r"
  shows "recover_key E title author lmv attempts s
     = (Inr JNull, s\<lparr>trace := trace s
          @ concat (map (\<lambda>a. [Sleep (1 + a), Net (RecentItems (since_of E lmv))]) attempts)
          @ [Print CreatedNoKey]\<rparr>)"
proof (induction attempts arbitrary: s)
  case Nil
  show ?case by (simp add: bnd_def emit_def ret_def)
next
  case (Cons a attempts)
  let ?s1 = "s\<lparr>trace := trace s @ [Sleep (1 + a)]\<rparr>"
  from assms obtain r where r: "net E (trace ?s1) (RecentItems (since_of E lmv)) = Some r"
      "no_title_match E title r"
    by blast
  have "fetch_recent_and_match E title author lmv ?s1
     = (Inr JNull, ?s1\<lparr>trace := trace ?s1 @ [Net (RecentItems (since_of E lmv))]\<rparr>)"
    using r by (rule fetch_recent_none)
  then show ?case
    by (simp add: bnd_def emit_def Cons.IH)
qed

lemma since_of_recency_bound:
  "since_of E (header_or (hdrs (cps ''Last-Modified-Version'')) (hdrs (cps ''Last-Modified'')))
     = recency_bound E hdrs"
  by (simp add: since_of_def recency_bound_def version_header_def header_or_def
      split: option.splits)

lemma find_or_create_none:
  assumes "\<not> DRY_RUN C"
    and "map_of (sent_log s) (cps ''_items'') = Some (JObj items)"
    and "map_of items (normalize_title (str_lower E) title) = None"
    and "\<forall>tr. \<exists>r. net E tr (SearchItems title) = Some r \<and> no_title_match E title r"
    and "\<forall>tr. net E tr (PostItems (book_payload title author ck)) = Some rc"
    and "status_code rc = 200 \<or> status_code rc = 201"
    and "\<forall>k. extract_created_key rc = Some k \<longrightarrow> \<not> truthy k"
    and "\<forall>tr. \<exists>r. net E tr (RecentItems (recency_bound E (headers rc))) = Some r
           \<and> no_title_match E title r"
  shows "find_or_create_book_item C E title author ck False s
     = (Inr JNull, s\<lparr>trace := trace s @
          [Net (SearchItems title), Net (PostItems (book_payload title author ck)),
           Print (DebugCreated (status_code rc)),
           Sleep 1, Net (RecentItems (recency_bound E (headers rc))),
           Sleep 2, Net (RecentItems (recency_bound E (headers rc))),
           Sleep 3, Net (RecentItems (recency_bound E (headers rc))),
           Print CreatedNoKey]\<rparr>)"
proof -
  let ?lmv = "header_or (headers rc (cps ''Last-Modified-Version'')) (headers rc (cps ''Last-Modified''))"
  let ?b = "recency_bound E (headers rc)"
  let ?s1 = "s\<lparr>trace := trace s @ [Net (SearchItems title)]\<rparr>"
  let ?s2 = "s\<lparr>trace := trace s @ [Net (SearchItems title),
      Net (PostItems (book_payload title author ck)), Print (DebugCreated (status_code rc))]\<rparr>"
  from assms(4) obtain r where r: "net E (trace s) (SearchItems title) = Some r"
      "no_title_match E title r"
    by blast
  have 1: "search_item_by_title E title author s = (Inr JNull, ?s1)"
    using assms(2,3) r by (rule search_item_by_title_none)
  have b: "since_of E ?lmv = ?b" by (rule since_of_recency_bound)
  have "\<forall>tr. \<exists>r. net E tr (RecentItems (since_of E ?lmv)) = Some r \<and> no_title_match E title r"
    using assms(8) by (simp add: b)
  from recover_key_none [OF this, of author "[0, 1, 2]" ?s2]
  have 3: "recover_key E title author ?lmv [0, 1, 2] ?s2
     = (Inr JNull, ?s2\<lparr>trace := trace ?s2 @
          [Sleep 1, Net (RecentItems ?b), Sleep 2, Net (RecentItems ?b),
           Sleep 3, Net (RecentItems ?b), Print CreatedNoKey]\<rparr>)"
    by (simp add: b)
  have 2: "safe_post C E (PostItems (book_payload title author ck)) ?s1
     = (Inr rc, ?s1\<lparr>trace := trace ?s1 @ [Net (PostItems (book_payload title author ck))]\<rparr>)"
    using assms(1,5) by (simp add: safe_post_def http_def)
  show ?thesis
  proof (cases "extract_created_key rc")
    case None
    with assms(6) 1 2 3 show ?thesis
      by (auto simp: find_or_create_book_item_def bnd_def emit_def)
  next
    case (Some k)
    with assms(7) have "\<not> truthy k" by simp
    with Some assms(6) 1 2 3 show ?thesis
      by (auto simp: find_or_create_book_item_def bnd_def emit_def)
  qed
qed




end
